theory Spec2Isabelle
  imports Main "HOL-Library.AList"
begin

section \<open>Shared conventions\<close>

text \<open>
  The three durable objects (\<open>AgentCoordinator\<close>, \<open>JobQueue\<close>, \<open>SelfHealer\<close>) are modelled
  by explicit state passing: a handler takes the object's state and the decoded request
  body and returns the new state with its response.

  \<^item> A JavaScript \<open>Map\<close> keeps its keys in insertion order, and \<open>set\<close> on a key that is
    present keeps the key's position. It is an association list, written with
    \<open>AList.update\<close> and read with \<open>map_of\<close>.
  \<^item> Values that the handlers draw from the runtime are arguments of the model: the
    identifier cut from \<open>crypto.randomUUID()\<close> and the clock reading \<open>Date.now()\<close>.
  \<^item> A timestamp is the number of milliseconds since the epoch, an unbounded \<open>int\<close>; the ISO
    string the code stores is its encoding, and the end of the ECMAScript time range
    (8.64e15 ms) is not modelled. One handler run reads one clock value \<open>now\<close>.
  \<^item> Counters are mathematical integers or naturals, not doubles.
  \<^item> Opaque JSON payloads (\<open>Record<string, unknown>\<close>) are strings.
  \<^item> Record fields carry a prefix (\<open>a_\<close> agent, \<open>t_\<close> task, \<open>j_\<close> job, ...) because several
    interfaces of the source share field names.
\<close>

type_synonym timestamp = int
type_synonym payload = string

text \<open>The \<open>for (i ...) { if (!ok) continue; xs.splice(i, 1); ... }\<close> scan that the task
  backlog and the job lanes share: the first element that passes, and the list without it.\<close>

primrec splice_first :: "('a \<Rightarrow> bool) \<Rightarrow> 'a list \<Rightarrow> ('a \<times> 'a list) option" where
  "splice_first ok [] = None"
| "splice_first ok (x # xs) =
     (if ok x then Some (x, xs)
      else (case splice_first ok xs of None \<Rightarrow> None | Some (y, ys) \<Rightarrow> Some (y, x # ys)))"

section \<open>AgentCoordinator\<close>

subsection \<open>Data\<close>

datatype agent_status = Idle | Busy | AgentError | Offline

datatype agent_type = Scraper | Analyzer | Fixer | Syncer | Monitor | Healer

datatype task_status = TPending | TRunning | TCompleted | TFailed | TRetrying | TCancelled

datatype priority = Low | Normal | High | Critical

record agent_state =
  a_id :: string
  a_name :: string
  a_type :: agent_type
  a_status :: agent_status
  a_currentTaskId :: "string option"
  a_capabilities :: "string list"
  a_lastHeartbeat :: timestamp
  a_tasksCompleted :: nat
  a_tasksFailed :: nat
  a_createdAt :: timestamp

record agent_task =
  t_id :: string
  t_agentId :: string
  t_type :: string
  t_description :: string
  t_status :: task_status
  t_input :: payload
  t_output :: "payload option"
  t_error :: "string option"
  t_createdAt :: timestamp
  t_startedAt :: "timestamp option"
  t_completedAt :: "timestamp option"
  t_parentTaskId :: "string option"

record coordinator =
  agents :: "(string \<times> agent_state) list"
  tasks :: "(string \<times> agent_task) list"
  taskQueue :: "string list"

definition empty_coordinator :: coordinator where
  "empty_coordinator = \<lparr>agents = [], tasks = [], taskQueue = []\<rparr>"

text \<open>The failure report that \<open>triggerSelfHealingForTask\<close> posts to the healer.\<close>

record task_failed_report =
  tf_taskId :: string
  tf_taskType :: string
  tf_error :: "string option"
  tf_timestamp :: timestamp

datatype coord_response =
    NotFound
  | Success
  | Registered string agent_state
  | Submitted string agent_task
  | NextTask agent_task
  | NoTask string
  | Completed agent_task
  | FailedTask agent_task "task_failed_report option"

subsection \<open>Capability matching\<close>

fun agent_type_name :: "agent_type \<Rightarrow> string" where
  "agent_type_name Scraper = ''scraper''"
| "agent_type_name Analyzer = ''analyzer''"
| "agent_type_name Fixer = ''fixer''"
| "agent_type_name Syncer = ''syncer''"
| "agent_type_name Monitor = ''monitor''"
| "agent_type_name Healer = ''healer''"

definition taskTypeToCapability :: "(string \<times> string list) list" where
  "taskTypeToCapability =
     [(''repo:scrape'', [''scraper'', ''analyzer'']),
      (''repo:analyze'', [''analyzer'']),
      (''repo:sync'', [''syncer'']),
      (''agent:resolve'', [''healer'', ''fixer'']),
      (''cohesion:check'', [''analyzer'', ''monitor'']),
      (''cohesion:fix'', [''fixer'']),
      (''health:check'', [''monitor''])]"

definition canAgentHandleTask :: "agent_state \<Rightarrow> agent_task \<Rightarrow> bool" where
  "canAgentHandleTask agent task =
     (let requiredCapabilities =
            (case map_of taskTypeToCapability (t_type task) of None \<Rightarrow> [] | Some r \<Rightarrow> r)
      in requiredCapabilities = []
         \<or> agent_type_name (a_type agent) \<in> set requiredCapabilities
         \<or> list_ex (\<lambda>c. c \<in> set requiredCapabilities) (a_capabilities agent))"

subsection \<open>Handlers\<close>

definition handleRegisterAgent ::
  "coordinator \<Rightarrow> string \<Rightarrow> string \<Rightarrow> agent_type \<Rightarrow> string list option \<Rightarrow> timestamp
     \<Rightarrow> coordinator \<times> coord_response" where
  "handleRegisterAgent c agentId name type capabilities now =
     (let agent = \<lparr>a_id = agentId, a_name = name, a_type = type, a_status = Idle,
                   a_currentTaskId = None,
                   a_capabilities = (case capabilities of None \<Rightarrow> [] | Some cs \<Rightarrow> cs),
                   a_lastHeartbeat = now, a_tasksCompleted = 0, a_tasksFailed = 0,
                   a_createdAt = now\<rparr>
      in (c\<lparr>agents := AList.update agentId agent (agents c)\<rparr>, Registered agentId agent))"

definition handleHeartbeat ::
  "coordinator \<Rightarrow> string \<Rightarrow> agent_status option \<Rightarrow> timestamp \<Rightarrow> coordinator \<times> coord_response" where
  "handleHeartbeat c agentId status now =
     (case map_of (agents c) agentId of
        None \<Rightarrow> (c, NotFound)
      | Some agent \<Rightarrow>
          (let agent1 = agent\<lparr>a_lastHeartbeat := now\<rparr>;
               agent2 = (case status of None \<Rightarrow> agent1 | Some s \<Rightarrow> agent1\<lparr>a_status := s\<rparr>)
           in (c\<lparr>agents := AList.update agentId agent2 (agents c)\<rparr>, Success)))"

text \<open>The test of both backlog scans: the queued id has a task, the task is \<open>pending\<close> and
  the agent can handle it.\<close>

definition assignable :: "coordinator \<Rightarrow> agent_state \<Rightarrow> string \<Rightarrow> bool" where
  "assignable c agent taskId =
     (case map_of (tasks c) taskId of
        None \<Rightarrow> False
      | Some task \<Rightarrow> t_status task = TPending \<and> canAgentHandleTask agent task)"

text \<open>The body of the outer loop of \<open>tryAssignTasks\<close>, for one idle agent of the snapshot.\<close>

definition assign_agent :: "timestamp \<Rightarrow> coordinator \<Rightarrow> agent_state \<Rightarrow> coordinator" where
  "assign_agent now c agent =
     (case splice_first (assignable c agent) (taskQueue c) of
        None \<Rightarrow> c
      | Some (taskId, rest) \<Rightarrow>
          (case map_of (tasks c) taskId of
             None \<Rightarrow> c
           | Some task \<Rightarrow>
               c\<lparr>taskQueue := rest,
                 tasks := AList.update taskId
                   (task\<lparr>t_agentId := a_id agent, t_status := TRunning, t_startedAt := Some now\<rparr>)
                   (tasks c),
                 agents := AList.update (a_id agent)
                   (agent\<lparr>a_status := Busy, a_currentTaskId := Some taskId\<rparr>) (agents c)\<rparr>))"

definition tryAssignTasks :: "timestamp \<Rightarrow> coordinator \<Rightarrow> coordinator" where
  "tryAssignTasks now c =
     foldl (assign_agent now) c (filter (\<lambda>a. a_status a = Idle) (map snd (agents c)))"

definition handleSubmitTask ::
  "coordinator \<Rightarrow> string \<Rightarrow> string \<Rightarrow> string \<Rightarrow> payload \<Rightarrow> priority option \<Rightarrow> string option
     \<Rightarrow> timestamp \<Rightarrow> coordinator \<times> coord_response" where
  "handleSubmitTask c taskId type description input priority parentTaskId now =
     (let task = \<lparr>t_id = taskId, t_agentId = [], t_type = type, t_description = description,
                  t_status = TPending, t_input = input, t_output = None, t_error = None,
                  t_createdAt = now, t_startedAt = None, t_completedAt = None,
                  t_parentTaskId = parentTaskId\<rparr>;
          c1 = c\<lparr>tasks := AList.update taskId task (tasks c)\<rparr>;
          prio = (case priority of None \<Rightarrow> Normal | Some p \<Rightarrow> p);
          c2 = (if prio = Critical \<or> prio = High
                then c1\<lparr>taskQueue := taskId # taskQueue c1\<rparr>
                else c1\<lparr>taskQueue := taskQueue c1 @ [taskId]\<rparr>);
          c3 = tryAssignTasks now c2
      in (c3, Submitted taskId (case map_of (tasks c3) taskId of None \<Rightarrow> task | Some t \<Rightarrow> t)))"

definition handleGetNextTask ::
  "coordinator \<Rightarrow> string \<Rightarrow> timestamp \<Rightarrow> coordinator \<times> coord_response" where
  "handleGetNextTask c agentId now =
     (case map_of (agents c) agentId of
        None \<Rightarrow> (c, NotFound)
      | Some agent \<Rightarrow>
          if a_status agent \<noteq> Idle then (c, NoTask ''Agent not idle'')
          else
            (case splice_first (assignable c agent) (taskQueue c) of
               None \<Rightarrow> (c, NoTask ''No suitable tasks'')
             | Some (taskId, rest) \<Rightarrow>
                 (case map_of (tasks c) taskId of
                    None \<Rightarrow> (c, NoTask ''No suitable tasks'')
                  | Some task \<Rightarrow>
                      (let task' = task\<lparr>t_agentId := agentId, t_status := TRunning,
                                         t_startedAt := Some now\<rparr>;
                           agent' = agent\<lparr>a_status := Busy, a_currentTaskId := Some taskId\<rparr>
                       in (c\<lparr>taskQueue := rest,
                             tasks := AList.update taskId task' (tasks c),
                             agents := AList.update agentId agent' (agents c)\<rparr>,
                           NextTask task')))))"

text \<open>\<open>handleCompleteTask\<close> up to its \<open>persist()\<close>, before the assignment pass.\<close>

definition complete_update ::
  "coordinator \<Rightarrow> string \<Rightarrow> agent_task \<Rightarrow> string \<Rightarrow> agent_state \<Rightarrow> payload \<Rightarrow> timestamp
     \<Rightarrow> coordinator" where
  "complete_update c taskId task agentId agent output now =
     c\<lparr>tasks := AList.update taskId
          (task\<lparr>t_status := TCompleted, t_output := Some output, t_completedAt := Some now\<rparr>)
          (tasks c),
       agents := AList.update agentId
          (agent\<lparr>a_status := Idle, a_currentTaskId := None,
                 a_tasksCompleted := Suc (a_tasksCompleted agent)\<rparr>)
          (agents c)\<rparr>"

definition handleCompleteTask ::
  "coordinator \<Rightarrow> string \<Rightarrow> string \<Rightarrow> payload \<Rightarrow> timestamp \<Rightarrow> coordinator \<times> coord_response" where
  "handleCompleteTask c taskId agentId output now =
     (case (map_of (tasks c) taskId, map_of (agents c) agentId) of
        (Some task, Some agent) \<Rightarrow>
          (tryAssignTasks now (complete_update c taskId task agentId agent output now),
           Completed (task\<lparr>t_status := TCompleted, t_output := Some output,
                           t_completedAt := Some now\<rparr>))
      | _ \<Rightarrow> (c, NotFound))"

definition triggerSelfHealingForTask ::
  "bool \<Rightarrow> agent_task \<Rightarrow> timestamp \<Rightarrow> task_failed_report option" where
  "triggerSelfHealingForTask selfHealEnabled task now =
     (if \<not> selfHealEnabled then None
      else Some \<lparr>tf_taskId = t_id task, tf_taskType = t_type task, tf_error = t_error task,
                 tf_timestamp = now\<rparr>)"

definition handleFailTask ::
  "bool \<Rightarrow> coordinator \<Rightarrow> string \<Rightarrow> string \<Rightarrow> string \<Rightarrow> bool option \<Rightarrow> timestamp
     \<Rightarrow> coordinator \<times> coord_response" where
  "handleFailTask selfHealEnabled c taskId agentId err shouldRetry now =
     (case (map_of (tasks c) taskId, map_of (agents c) agentId) of
        (Some task, Some agent) \<Rightarrow>
          (let agent' = agent\<lparr>a_status := Idle, a_currentTaskId := None,
                              a_tasksFailed := Suc (a_tasksFailed agent)\<rparr>
           in if shouldRetry = Some True then
                (let task' = task\<lparr>t_status := TRetrying, t_agentId := []\<rparr>
                 in (c\<lparr>taskQueue := taskId # taskQueue c,
                       tasks := AList.update taskId task' (tasks c),
                       agents := AList.update agentId agent' (agents c)\<rparr>,
                     FailedTask task' None))
              else
                (let task' = task\<lparr>t_status := TFailed, t_error := Some err,
                                   t_completedAt := Some now\<rparr>
                 in (c\<lparr>tasks := AList.update taskId task' (tasks c),
                       agents := AList.update agentId agent' (agents c)\<rparr>,
                     FailedTask task' (triggerSelfHealingForTask selfHealEnabled task' now))))
      | _ \<Rightarrow> (c, NotFound))"

text \<open>The maintenance sweep. The stale-agent loop visits the registry in order; an agent is
  changed only in its own iteration, and \<open>set\<close> on a present key adds no entry, so the loop is
  a fold over the entries it started with. \<open>if (agent.currentTaskId)\<close> is false for the
  empty string as well.\<close>

definition alarm_agent :: "timestamp \<Rightarrow> coordinator \<Rightarrow> string \<times> agent_state \<Rightarrow> coordinator" where
  "alarm_agent now c entry =
     (case entry of (agentId, agent) \<Rightarrow>
        if a_lastHeartbeat agent < now - 5 * 60 * 1000 \<and> a_status agent \<noteq> Offline then
          (let c1 = c\<lparr>agents := AList.update agentId (agent\<lparr>a_status := Offline\<rparr>) (agents c)\<rparr>
           in case a_currentTaskId agent of
                None \<Rightarrow> c1
              | Some taskId \<Rightarrow>
                  if taskId = [] then c1
                  else (case map_of (tasks c1) taskId of
                          None \<Rightarrow> c1
                        | Some task \<Rightarrow>
                            if t_status task = TRunning then
                              c1\<lparr>taskQueue := taskId # taskQueue c1,
                                 tasks := AList.update taskId
                                   (task\<lparr>t_status := TPending, t_agentId := []\<rparr>) (tasks c1)\<rparr>
                            else c1))
        else c)"

definition purgeable :: "timestamp \<Rightarrow> agent_task \<Rightarrow> bool" where
  "purgeable now task =
     ((t_status task = TCompleted \<or> t_status task = TFailed)
      \<and> (case t_completedAt task of None \<Rightarrow> False
          | Some completedAt \<Rightarrow> completedAt < now - 24 * 60 * 60 * 1000))"

definition alarm :: "timestamp \<Rightarrow> coordinator \<Rightarrow> coordinator" where
  "alarm now c =
     (let c1 = foldl (alarm_agent now) c (agents c)
      in c1\<lparr>tasks := filter (\<lambda>(taskId, task). \<not> purgeable now task) (tasks c1)\<rparr>)"


section \<open>JobQueue\<close>

subsection \<open>Data\<close>

text \<open>\<open>maxRetries\<close> comes from the request body (\<open>body.maxRetries ?? 3\<close>) and is not checked,
  so it is an \<open>int\<close>; \<open>retryCount\<close> starts at 0 and is only incremented or reset. The
  counters of \<open>QueueStats\<close> are decremented without a check and are integers; the running
  average \<open>avgProcessingTime\<close>, a floating-point value that only \<open>handleComplete\<close> writes, is
  left out.\<close>

datatype job_status = JPending | JProcessing | JCompleted | JFailed | JDead

record queued_job =
  j_id :: string
  j_type :: string
  j_payload :: payload
  j_priority :: priority
  j_status :: job_status
  j_retryCount :: nat
  j_maxRetries :: int
  j_createdAt :: timestamp
  j_scheduledFor :: "timestamp option"
  j_startedAt :: "timestamp option"
  j_completedAt :: "timestamp option"
  j_error :: "string option"
  j_result :: "payload option"

record queue_stats =
  s_pending :: int
  s_processing :: int
  s_completed :: int
  s_failed :: int
  s_dead :: int
  s_totalProcessed :: int

record job_queue =
  jobs :: "(string \<times> queued_job) list"
  priorityQueues :: "priority \<Rightarrow> string list"
  stats :: queue_stats

definition empty_queue :: job_queue where
  "empty_queue =
     \<lparr>jobs = [], priorityQueues = (\<lambda>p. []),
      stats = \<lparr>s_pending = 0, s_processing = 0, s_completed = 0, s_failed = 0, s_dead = 0,
               s_totalProcessed = 0\<rparr>\<rparr>"

record dead_job_report =
  dj_jobId :: string
  dj_jobType :: string
  dj_error :: "string option"
  dj_retryCount :: nat
  dj_timestamp :: timestamp

datatype queue_response =
    JobNotFound
  | Enqueued string queued_job
  | Dequeued "queued_job option"
  | FailResult queued_job bool "dead_job_report option"

subsection \<open>Handlers\<close>

definition handleEnqueue ::
  "job_queue \<Rightarrow> string \<Rightarrow> string \<Rightarrow> payload \<Rightarrow> priority option \<Rightarrow> int option \<Rightarrow> timestamp
     \<Rightarrow> job_queue \<times> queue_response" where
  "handleEnqueue q jobId type pl prio maxRetries now =
     (let job = \<lparr>j_id = jobId, j_type = type, j_payload = pl,
                 j_priority = (case prio of None \<Rightarrow> Normal | Some p \<Rightarrow> p),
                 j_status = JPending, j_retryCount = 0,
                 j_maxRetries = (case maxRetries of None \<Rightarrow> 3 | Some m \<Rightarrow> m),
                 j_createdAt = now, j_scheduledFor = None, j_startedAt = None,
                 j_completedAt = None, j_error = None, j_result = None\<rparr>
      in (q\<lparr>jobs := AList.update jobId job (jobs q),
            priorityQueues := (priorityQueues q)
               (j_priority job := priorityQueues q (j_priority job) @ [jobId]),
            stats := (stats q)\<lparr>s_pending := s_pending (stats q) + 1\<rparr>\<rparr>,
          Enqueued jobId job))"

text \<open>The three \<open>continue\<close> tests of the dequeue scan.\<close>

definition eligible :: "job_queue \<Rightarrow> timestamp \<Rightarrow> string list option \<Rightarrow> string \<Rightarrow> bool" where
  "eligible q now types jobId =
     (case map_of (jobs q) jobId of
        None \<Rightarrow> False
      | Some job \<Rightarrow>
          j_status job = JPending
          \<and> (case j_scheduledFor job of None \<Rightarrow> True | Some at \<Rightarrow> \<not> at > now)
          \<and> (case types of None \<Rightarrow> True | Some ts \<Rightarrow> j_type job \<in> set ts))"

fun dequeue_from :: "job_queue \<Rightarrow> timestamp \<Rightarrow> string list option \<Rightarrow> priority list
     \<Rightarrow> job_queue \<times> queue_response" where
  "dequeue_from q now types [] = (q, Dequeued None)"
| "dequeue_from q now types (p # ps) =
     (case splice_first (eligible q now types) (priorityQueues q p) of
        None \<Rightarrow> dequeue_from q now types ps
      | Some (jobId, rest) \<Rightarrow>
          (case map_of (jobs q) jobId of
             None \<Rightarrow> dequeue_from q now types ps
           | Some job \<Rightarrow>
               (let job' = job\<lparr>j_status := JProcessing, j_startedAt := Some now\<rparr>
                in (q\<lparr>priorityQueues := (priorityQueues q)(p := rest),
                      jobs := AList.update jobId job' (jobs q),
                      stats := (stats q)\<lparr>s_pending := s_pending (stats q) - 1,
                                         s_processing := s_processing (stats q) + 1\<rparr>\<rparr>,
                    Dequeued (Some job')))))"

definition handleDequeue ::
  "job_queue \<Rightarrow> string \<Rightarrow> string list option \<Rightarrow> timestamp \<Rightarrow> job_queue \<times> queue_response" where
  "handleDequeue q workerId types now = dequeue_from q now types [Critical, High, Normal, Low]"



text \<open>The id of the job in a dequeue response.\<close>

fun dequeued_id :: "queue_response \<Rightarrow> string option" where
  "dequeued_id (Dequeued (Some job)) = Some (j_id job)"
| "dequeued_id _ = None"

text \<open>A job that a dequeue without a type filter can take at any time: stored under its
  own id, \<open>pending\<close>, with no \<open>scheduledFor\<close>.\<close>

definition ready :: "job_queue \<Rightarrow> string \<Rightarrow> bool" where
  "ready q jobId \<longleftrightarrow>
     (case map_of (jobs q) jobId of
        None \<Rightarrow> False
      | Some job \<Rightarrow> j_id job = jobId \<and> j_status job = JPending \<and> j_scheduledFor job = None)"

section \<open>SelfHealer\<close>

subsection \<open>Strings\<close>

text \<open>A string is its list of code units, here below 256. \<open>toLowerCase\<close> maps the upper-case
  letters of that range; \<open>includes_str\<close> is \<open>String.prototype.includes\<close>.\<close>

definition lower_char :: "char \<Rightarrow> char" where
  "lower_char c =
     (let n = (of_char c :: nat)
      in if (65 \<le> n \<and> n \<le> 90) \<or> (192 \<le> n \<and> n \<le> 222 \<and> n \<noteq> 215)
         then char_of (n + 32) else c)"

definition toLowerCase :: "string \<Rightarrow> string" where
  "toLowerCase s = map lower_char s"

fun startsWith :: "string \<Rightarrow> string \<Rightarrow> bool" where
  "startsWith s [] = True"
| "startsWith [] (p # ps) = False"
| "startsWith (c # cs) (p # ps) = (c = p \<and> startsWith cs ps)"

fun includes_str :: "string \<Rightarrow> string \<Rightarrow> bool" where
  "includes_str [] p = (p = [])"
| "includes_str (c # cs) p = (startsWith (c # cs) p \<or> includes_str cs p)"

text \<open>\<open>s.replace(/re/g, r)\<close> for a regular expression that never matches the empty string:
  \<open>m\<close> gives the length of the match of \<open>re\<close> that starts at the head of its argument, if
  there is one. The scan takes the leftmost match, writes \<open>r\<close>, and goes on behind the match.\<close>

function replace_all :: "(string \<Rightarrow> nat option) \<Rightarrow> string \<Rightarrow> string \<Rightarrow> string" where
  "replace_all m r [] = []"
| "replace_all m r (c # cs) =
     (case m (c # cs) of
        None \<Rightarrow> c # replace_all m r cs
      | Some n \<Rightarrow> r @ replace_all m r (drop (n - 1) cs))"
  by pat_completeness auto
termination
  by (relation "measure (\<lambda>(m, r, s). length s)") auto

definition is_hex :: "char \<Rightarrow> bool" where
  "is_hex c \<longleftrightarrow> c \<in> set ''0123456789abcdefABCDEF''"

definition is_digit :: "char \<Rightarrow> bool" where
  "is_digit c \<longleftrightarrow> c \<in> set ''0123456789''"

definition is_space :: "char \<Rightarrow> bool" where
  "is_space c \<longleftrightarrow> c \<in> set [CHR 0x09, CHR 0x0A, CHR 0x0B, CHR 0x0C, CHR 0x0D, CHR 0x20, CHR 0xA0]"

text \<open>A sequence of character classes, one character each.\<close>

fun match_classes :: "(char \<Rightarrow> bool) list \<Rightarrow> string \<Rightarrow> bool" where
  "match_classes [] s = True"
| "match_classes (k # ks) [] = False"
| "match_classes (k # ks) (c # cs) = (k c \<and> match_classes ks cs)"

text \<open>\<open>/[0-9a-f]{8}-[0-9a-f]{4}-[0-9a-f]{4}-[0-9a-f]{4}-[0-9a-f]{12}/gi\<close>\<close>

definition uuid_classes :: "(char \<Rightarrow> bool) list" where
  "uuid_classes =
     replicate 8 is_hex @ [\<lambda>c. c = CHR ''-''] @ replicate 4 is_hex @ [\<lambda>c. c = CHR ''-'']
     @ replicate 4 is_hex @ [\<lambda>c. c = CHR ''-''] @ replicate 4 is_hex @ [\<lambda>c. c = CHR ''-'']
     @ replicate 12 is_hex"

definition match_uuid :: "string \<Rightarrow> nat option" where
  "match_uuid s = (if match_classes uuid_classes s then Some 36 else None)"

text \<open>\<open>/\d+/g\<close>\<close>

definition match_digits :: "string \<Rightarrow> nat option" where
  "match_digits s =
     (let n = length (takeWhile is_digit s) in if n = 0 then None else Some n)"

text \<open>\<open>/https?:\/\/[^\s]+/g\<close>\<close>

definition match_url :: "string \<Rightarrow> nat option" where
  "match_url s =
     (let k = (if startsWith s ''https://'' then Some 8
               else if startsWith s ''http://'' then Some 7 else None)
      in case k of
           None \<Rightarrow> None
         | Some k \<Rightarrow>
             (let n = length (takeWhile (\<lambda>c. \<not> is_space c) (drop k s))
              in if n = 0 then None else Some (k + n)))"

text \<open>\<open>/"[^"]*"/g\<close>, and its replacement \<open>"<STRING>"\<close>\<close>

definition match_quoted :: "string \<Rightarrow> nat option" where
  "match_quoted s =
     (case s of
        [] \<Rightarrow> None
      | c # cs \<Rightarrow>
          if c = CHR 0x22 \<and> CHR 0x22 \<in> set cs
          then Some (length (takeWhile (\<lambda>d. d \<noteq> CHR 0x22) cs) + 2) else None)"

definition extractErrorPattern :: "string \<Rightarrow> string" where
  "extractErrorPattern error =
     take 200
       (replace_all match_quoted (CHR 0x22 # ''<STRING>'' @ [CHR 0x22])
         (replace_all match_url ''<URL>''
           (replace_all match_digits ''<N>''
             (replace_all match_uuid ''<UUID>'' error))))"

subsection \<open>Data\<close>

text \<open>The free-form \<open>metadata\<close> of an issue is read at two keys only, \<open>repeatCount\<close> (cast to
  \<open>number\<close>) and \<open>agentId\<close>; the other entries are kept as one opaque value. The never-written
  \<open>avgResolutionTime\<close> and the \<open>actions\<close> of manual healing are left out.\<close>

datatype severity = SevWarning | SevError | SevCritical

record error_pattern =
  p_pattern :: string
  p_count :: nat
  p_lastSeen :: timestamp
  p_resolution :: "string option"
  p_autoResolved :: nat

record healer_metrics =
  m_totalErrors :: nat
  m_autoResolved :: nat
  m_escalated :: nat

record escalation =
  e_id :: string
  e_issue :: string
  e_severity :: severity
  e_attempts :: nat
  e_createdAt :: timestamp
  e_resolvedAt :: "timestamp option"

record issue_metadata =
  md_repeatCount :: "int option"
  md_agentId :: "string option"
  md_other :: payload

record issue_context =
  i_type :: string
  i_error :: string
  i_stack :: "string option"
  i_path :: "string option"
  i_taskId :: "string option"
  i_jobId :: "string option"
  i_timestamp :: string
  i_metadata :: "issue_metadata option"

record resolution_result =
  r_success :: bool
  r_action :: string
  r_message :: string
  r_nextSteps :: "string list option"

record healer =
  errorPatterns :: "(string \<times> error_pattern) list"
  metrics :: healer_metrics
  escalations :: "escalation list"

definition empty_healer :: healer where
  "empty_healer =
     \<lparr>errorPatterns = [],
      metrics = \<lparr>m_totalErrors = 0, m_autoResolved = 0, m_escalated = 0\<rparr>,
      escalations = []\<rparr>"

record breaker_flag =
  b_activated :: bool
  b_activatedAt :: timestamp
  b_reason :: string
  b_cooldownUntil :: timestamp

text \<open>The requests a strategy sends to the other objects and to the key-value stores.
  They are the healer's only effect outside its own state, and are returned as a trace.\<close>

datatype ext_call =
    QueueSchedule string string "issue_metadata option" timestamp priority
  | QueueEnqueue string payload priority
  | QueuePurge int "string list"
  | CacheDelete string
  | ConfigPut string breaker_flag nat
  | SyncFull
  | CoordHeartbeat "string option" agent_status
  | CoordSubmit string string escalation "(string \<times> error_pattern) list" priority

text \<open>The environment: which requests throw, and whether \<open>ANTHROPIC_API_KEY\<close> is set.\<close>

record env =
  throws :: "ext_call \<Rightarrow> bool"
  anthropicApiKey :: bool

record report_response =
  rr_success :: bool
  rr_autoResolved :: bool
  rr_action :: string
  rr_message :: string

subsection \<open>Strategies\<close>

datatype strategy =
  RetryTransient | RefreshAuth | ResourceCleanup | CircuitBreaker | ResyncRepos | RestartAgent

definition strategies :: "strategy list" where
  "strategies =
     [RetryTransient, RefreshAuth, ResourceCleanup, CircuitBreaker, ResyncRepos, RestartAgent]"

definition some_pattern :: "string list \<Rightarrow> string \<Rightarrow> bool" where
  "some_pattern ps error = list_ex (\<lambda>p. includes_str (toLowerCase error) (toLowerCase p)) ps"

fun canResolve :: "strategy \<Rightarrow> issue_context \<Rightarrow> bool" where
  "canResolve RetryTransient issue =
     some_pattern [''ECONNRESET'', ''ETIMEDOUT'', ''ENOTFOUND'', ''rate limit'', ''429'', ''503'',
                   ''504'', ''network'', ''timeout''] (i_error issue)"
| "canResolve RefreshAuth issue =
     some_pattern [''401'', ''403'', ''unauthorized'', ''forbidden'', ''token expired'']
       (i_error issue)"
| "canResolve ResourceCleanup issue =
     some_pattern [''memory'', ''storage'', ''quota'', ''limit exceeded''] (i_error issue)"
| "canResolve CircuitBreaker issue =
     (case i_metadata issue of
        None \<Rightarrow> False
      | Some md \<Rightarrow> (case md_repeatCount md of None \<Rightarrow> False | Some n \<Rightarrow> n \<ge> 3))"
| "canResolve ResyncRepos issue =
     (includes_str (i_type issue) ''sync'' \<or> includes_str (i_type issue) ''cohesion'')"
| "canResolve RestartAgent issue =
     (includes_str (i_type issue) ''agent''
      \<and> (includes_str (i_error issue) ''stuck'' \<or> includes_str (i_error issue) ''unresponsive''
         \<or> includes_str (i_error issue) ''timeout''))"

text \<open>The requests of a strategy's \<open>resolve\<close>, in the order it awaits them.\<close>

fun requests :: "strategy \<Rightarrow> issue_context \<Rightarrow> timestamp \<Rightarrow> ext_call list" where
  "requests RetryTransient issue now =
     [QueueSchedule (if i_type issue = ''task'' then ''agent:task'' else ''agent:resolve'')
        (i_error issue) (i_metadata issue) (now + 5000) High]"
| "requests RefreshAuth issue now = [CacheDelete ''github_token_cache'', CacheDelete ''api_tokens'']"
| "requests ResourceCleanup issue now =
     [QueueEnqueue ''cleanup:artifacts'' ''{urgent: true}'' Critical,
      QueuePurge 12 [''completed'', ''failed'']]"
| "requests CircuitBreaker issue now =
     [ConfigPut (''circuit_breaker:'' @ i_type issue)
        \<lparr>b_activated = True, b_activatedAt = now, b_reason = i_error issue,
         b_cooldownUntil = now + 5 * 60 * 1000\<rparr> 300]"
| "requests ResyncRepos issue now = [SyncFull]"
| "requests RestartAgent issue now =
     [CoordHeartbeat (case i_metadata issue of None \<Rightarrow> None | Some md \<Rightarrow> md_agentId md) Idle]"

text \<open>What \<open>resolve\<close> returns when none of its requests throws.\<close>

fun outcome :: "strategy \<Rightarrow> issue_context \<Rightarrow> resolution_result" where
  "outcome RetryTransient issue =
     \<lparr>r_success = True, r_action = ''Scheduled retry'',
      r_message = ''Transient error detected. Scheduled retry in 5 seconds.'',
      r_nextSteps = None\<rparr>"
| "outcome RefreshAuth issue =
     \<lparr>r_success = True, r_action = ''Cleared auth cache'',
      r_message = ''Authentication error detected. Cleared cached tokens.'',
      r_nextSteps = Some [''Verify GITHUB_TOKEN is still valid'', ''Check API rate limits'']\<rparr>"
| "outcome ResourceCleanup issue =
     \<lparr>r_success = True, r_action = ''Triggered cleanup'',
      r_message = ''Resource constraint detected. Triggered urgent cleanup.'',
      r_nextSteps = None\<rparr>"
| "outcome CircuitBreaker issue =
     \<lparr>r_success = True, r_action = ''Circuit breaker activated'',
      r_message = ''Cascading failure detected. Circuit breaker activated for '' @ i_type issue
                  @ ''. Will auto-reset in 5 minutes.'',
      r_nextSteps = Some [''Monitor error rates'', ''Check downstream dependencies'']\<rparr>"
| "outcome ResyncRepos issue =
     \<lparr>r_success = True, r_action = ''Triggered full repo sync'',
      r_message = ''Sync-related issue detected. Triggered full repository sync.'',
      r_nextSteps = None\<rparr>"
| "outcome RestartAgent issue =
     \<lparr>r_success = True, r_action = ''Reset agent status'',
      r_message = ''Agent issue detected. Reset agent status to idle.'',
      r_nextSteps = None\<rparr>"

text \<open>Sending requests one after the other until one throws: the requests that went through,
  and whether all did.\<close>

fun send :: "(ext_call \<Rightarrow> bool) \<Rightarrow> ext_call list \<Rightarrow> ext_call list \<times> bool" where
  "send thr [] = ([], True)"
| "send thr (x # xs) =
     (if thr x then ([], False)
      else (case send thr xs of (sent, ok) \<Rightarrow> (x # sent, ok)))"

definition no_resolution :: resolution_result where
  "no_resolution =
     \<lparr>r_success = False, r_action = ''No resolution found'',
      r_message = ''Could not automatically resolve this issue. Escalating.'',
      r_nextSteps = None\<rparr>"

fun attempt :: "env \<Rightarrow> issue_context \<Rightarrow> timestamp \<Rightarrow> strategy list
     \<Rightarrow> resolution_result \<times> ext_call list" where
  "attempt ev issue now [] = (no_resolution, [])"
| "attempt ev issue now (s # ss) =
     (if canResolve s issue then
        (case send (throws ev) (requests s issue now) of
           (sent, ok) \<Rightarrow>
             if ok \<and> r_success (outcome s issue) then (outcome s issue, sent)
             else (case attempt ev issue now ss of (res, later) \<Rightarrow> (res, sent @ later)))
      else attempt ev issue now ss)"

definition attemptAutoResolution ::
  "env \<Rightarrow> issue_context \<Rightarrow> timestamp \<Rightarrow> resolution_result \<times> ext_call list" where
  "attemptAutoResolution ev issue now = attempt ev issue now strategies"

subsection \<open>Reporting an error\<close>

definition determineSeverity :: "issue_context \<Rightarrow> severity" where
  "determineSeverity issue =
     (let lowerError = toLowerCase (i_error issue)
      in if list_ex (\<lambda>p. includes_str lowerError p)
              [''crash'', ''fatal'', ''unrecoverable'', ''data loss'']
         then SevCritical
         else if list_ex (\<lambda>p. includes_str lowerError p) [''failed'', ''error'', ''exception'']
         then SevError
         else SevWarning)"

definition requestAIAnalysis :: "env \<Rightarrow> healer \<Rightarrow> escalation \<Rightarrow> ext_call list" where
  "requestAIAnalysis ev h esc =
     fst (send (throws ev)
       [CoordSubmit ''agent:resolve'' ''AI-powered error analysis'' esc
          (drop (length (errorPatterns h) - 10) (errorPatterns h))
          (if e_severity esc = SevCritical then Critical else High)])"

definition escalate :: "env \<Rightarrow> healer \<Rightarrow> escalation \<Rightarrow> healer \<times> ext_call list" where
  "escalate ev h esc =
     (let h1 = h\<lparr>escalations := escalations h @ [esc],
                metrics := (metrics h)\<lparr>m_escalated := Suc (m_escalated (metrics h))\<rparr>\<rparr>
      in (h1, if anthropicApiKey ev then requestAIAnalysis ev h1 esc else []))"

text \<open>The pattern-tracking step of \<open>handleReportError\<close>: the new pattern table and the issue
  with \<open>repeatCount\<close> written into its metadata when the pattern was known.\<close>

definition track_pattern ::
  "healer \<Rightarrow> issue_context \<Rightarrow> timestamp \<Rightarrow> healer \<times> issue_context" where
  "track_pattern h body now =
     (let patternKey = extractErrorPattern (i_error body)
      in case map_of (errorPatterns h) patternKey of
           Some existingPattern \<Rightarrow>
             (let p = existingPattern\<lparr>p_count := Suc (p_count existingPattern), p_lastSeen := now\<rparr>;
                  md = (case i_metadata body of
                          None \<Rightarrow> \<lparr>md_repeatCount = Some (int (p_count p)), md_agentId = None,
                                    md_other = []\<rparr>
                        | Some md0 \<Rightarrow> md0\<lparr>md_repeatCount := Some (int (p_count p))\<rparr>)
              in (h\<lparr>errorPatterns := AList.update patternKey p (errorPatterns h)\<rparr>,
                  body\<lparr>i_metadata := Some md\<rparr>))
         | None \<Rightarrow>
             (h\<lparr>errorPatterns := AList.update patternKey
                   \<lparr>p_pattern = patternKey, p_count = 1, p_lastSeen = now, p_resolution = None,
                    p_autoResolved = 0\<rparr> (errorPatterns h)\<rparr>,
              body))"

definition handleReportError ::
  "env \<Rightarrow> healer \<Rightarrow> issue_context \<Rightarrow> string \<Rightarrow> timestamp
     \<Rightarrow> healer \<times> ext_call list \<times> report_response" where
  "handleReportError ev h0 body0 escId now =
     (let h1 = h0\<lparr>metrics := (metrics h0)\<lparr>m_totalErrors := Suc (m_totalErrors (metrics h0))\<rparr>\<rparr>;
          patternKey = extractErrorPattern (i_error body0);
          (h2, body) = track_pattern h1 body0 now;
          (result, sent) = attemptAutoResolution ev body now;
          (h3, sent') =
            (if r_success result then
               (let h' = h2\<lparr>metrics := (metrics h2)
                              \<lparr>m_autoResolved := Suc (m_autoResolved (metrics h2))\<rparr>\<rparr>
                in case map_of (errorPatterns h') patternKey of
                     None \<Rightarrow> (h', [])
                   | Some pattern \<Rightarrow>
                       (h'\<lparr>errorPatterns := AList.update patternKey
                              (pattern\<lparr>p_autoResolved := Suc (p_autoResolved pattern),
                                       p_resolution := Some (r_action result)\<rparr>)
                              (errorPatterns h')\<rparr>, []))
             else
               escalate ev h2
                 \<lparr>e_id = escId, e_issue = i_error body, e_severity = determineSeverity body,
                  e_attempts = 1, e_createdAt = now, e_resolvedAt = None\<rparr>)
      in (h3, sent @ sent',
          \<lparr>rr_success = True, rr_autoResolved = r_success result, rr_action = r_action result,
           rr_message = r_message result\<rparr>))"

section \<open>Properties of the healer: definitions\<close>

text \<open>A string of the shape that the UUID expression matches, and the count that the
  pattern table holds for a key (0 for a key it does not hold).\<close>

definition is_uuid :: "string \<Rightarrow> bool" where
  "is_uuid u \<longleftrightarrow> length u = 36 \<and> match_classes uuid_classes u"

definition pattern_count :: "healer \<Rightarrow> string \<Rightarrow> nat" where
  "pattern_count h key = (case map_of (errorPatterns h) key of None \<Rightarrow> 0 | Some p \<Rightarrow> p_count p)"

section \<open>Properties of the coordinator: definitions\<close>



datatype coord_op =
    Register string string agent_type "string list option" timestamp
  | Heartbeat string "agent_status option" timestamp
  | Submit string string string payload "priority option" "string option" timestamp
  | RequestNext string timestamp
  | Complete string string payload timestamp
  | Fail string string string "bool option" timestamp
  | Sweep timestamp

fun exec_op :: "bool \<Rightarrow> coordinator \<Rightarrow> coord_op \<Rightarrow> coordinator" where
  "exec_op she c (Register agentId name type caps now) =
     fst (handleRegisterAgent c agentId name type caps now)"
| "exec_op she c (Heartbeat agentId status now) = fst (handleHeartbeat c agentId status now)"
| "exec_op she c (Submit taskId type description input prio parent now) =
     fst (handleSubmitTask c taskId type description input prio parent now)"
| "exec_op she c (RequestNext agentId now) = fst (handleGetNextTask c agentId now)"
| "exec_op she c (Complete taskId agentId output now) =
     fst (handleCompleteTask c taskId agentId output now)"
| "exec_op she c (Fail taskId agentId err shouldRetry now) =
     fst (handleFailTask she c taskId agentId err shouldRetry now)"
| "exec_op she c (Sweep now) = alarm now c"



inductive reachable :: "bool \<Rightarrow> coordinator \<Rightarrow> bool" for she where
  initial: "reachable she empty_coordinator"
| step: "reachable she c \<Longrightarrow> reachable she (exec_op she c op)"



text \<open>The representation of the registry: one entry for each key, stored under the agent's
  own id.\<close>

definition registry_ok :: "coordinator \<Rightarrow> bool" where
  "registry_ok c \<longleftrightarrow>
     distinct (map fst (agents c)) \<and> list_all (\<lambda>(k, a). a_id a = k) (agents c)"



subsection \<open>Scenarios\<close>

text \<open>One fixer agent; \<open>task-1\<close> is submitted and assigned to it at once.\<close>

definition sc_registered :: coordinator where
  "sc_registered =
     fst (handleRegisterAgent empty_coordinator ''agent-1'' ''fixer one'' Fixer None 1000)"

definition sc_running :: coordinator where
  "sc_running =
     fst (handleSubmitTask sc_registered ''task-1'' ''cohesion:fix'' ''fix drift'' ''{}''
            None None 2000)"

text \<open>\<open>task-1\<close> fails with a retry. The agent then reports itself offline, \<open>task-2\<close> is
  submitted and stays pending, and the agent reports itself idle again.\<close>

definition sc_retried :: coordinator where
  "sc_retried =
     fst (handleFailTask False sc_running ''task-1'' ''agent-1'' ''boom'' (Some True) 3000)"

definition sc_away :: coordinator where
  "sc_away = fst (handleHeartbeat sc_retried ''agent-1'' (Some Offline) 3100)"

definition sc_queued :: coordinator where
  "sc_queued =
     fst (handleSubmitTask sc_away ''task-2'' ''cohesion:fix'' ''fix more'' ''{}''
            None None 3200)"

definition sc_back :: coordinator where
  "sc_back = fst (handleHeartbeat sc_queued ''agent-1'' (Some Idle) 3300)"

text \<open>\<open>task-2\<close> is submitted while the agent works on \<open>task-1\<close>, and waits in the backlog.\<close>

definition sc_waiting :: coordinator where
  "sc_waiting =
     fst (handleSubmitTask sc_running ''task-2'' ''cohesion:fix'' ''fix more'' ''{}''
            None None 3000)"

definition sc_failed :: coordinator where
  "sc_failed =
     fst (handleFailTask False sc_waiting ''task-1'' ''agent-1'' ''boom'' None 4000)"

definition sc_completed :: coordinator where
  "sc_completed = fst (handleCompleteTask sc_waiting ''task-1'' ''agent-1'' ''{}'' 4000)"

definition sc_agent_busy :: agent_state where
  "sc_agent_busy =
     \<lparr>a_id = ''agent-1'', a_name = ''fixer one'', a_type = Fixer, a_status = Busy,
      a_currentTaskId = Some ''task-1'', a_capabilities = [], a_lastHeartbeat = 1000,
      a_tasksCompleted = 0, a_tasksFailed = 0, a_createdAt = 1000\<rparr>"

definition sc_task_running :: agent_task where
  "sc_task_running =
     \<lparr>t_id = ''task-1'', t_agentId = ''agent-1'', t_type = ''cohesion:fix'',
      t_description = ''fix drift'', t_status = TRunning, t_input = ''{}'', t_output = None,
      t_error = None, t_createdAt = 2000, t_startedAt = Some 2000, t_completedAt = None,
      t_parentTaskId = None\<rparr>"


section \<open>Scenarios of the job queue\<close>



section \<open>Scenarios of the healer\<close>

text \<open>An environment in which no request throws and no analysis key is set, and issues
  with a given type and error text and nothing else.\<close>

definition sc_env :: env where
  "sc_env = \<lparr>throws = (\<lambda>call. False), anthropicApiKey = False\<rparr>"

definition sc_issue :: "string \<Rightarrow> string \<Rightarrow> issue_context" where
  "sc_issue type error =
     \<lparr>i_type = type, i_error = error, i_stack = None, i_path = None, i_taskId = None,
      i_jobId = None, i_timestamp = ''2024-01-01T00:00:00.000Z'', i_metadata = None\<rparr>"

definition sc_failed_job_a :: issue_context where
  "sc_failed_job_a =
     sc_issue ''job'' ''Failed job 123e4567-e89b-12d3-a456-426614174000 after 42 retries''"

definition sc_failed_job_b :: issue_context where
  "sc_failed_job_b =
     sc_issue ''job'' ''Failed job 00000000-AAAA-bbbb-cccc-0123456789ab after 7 retries''"




section \<open>AgentCoordinator: proofs\<close>

subsection \<open>States in which every agent agrees with its task\<close>





































subsection \<open>The registry keeps its representation\<close>

lemma registry_ok_iff:
  "registry_ok c \<longleftrightarrow> distinct (map fst (agents c))
     \<and> (\<forall>k a. map_of (agents c) k = Some a \<longrightarrow> a_id a = k)"
  by (auto simp: registry_ok_def list_all_iff)

lemma registry_ok_update:
  assumes "registry_ok c" "a_id a' = k0" "agents c' = AList.update k0 a' (agents c)"
  shows "registry_ok c'"
  using assms
  by (auto simp: registry_ok_iff distinct_update update_conv' split: if_splits)

lemma registry_ok_same: "registry_ok c \<Longrightarrow> agents c' = agents c \<Longrightarrow> registry_ok c'"
  by (simp add: registry_ok_def)

lemma registry_ok_assign_agent:
  assumes "registry_ok c"
  shows "registry_ok (assign_agent now c a)"
proof (cases "agents (assign_agent now c a) = agents c")
  case True
  then show ?thesis using assms by (simp add: registry_ok_same)
next
  case False
  then obtain tid where "agents (assign_agent now c a) =
      AList.update (a_id a) (a\<lparr>a_status := Busy, a_currentTaskId := Some tid\<rparr>) (agents c)"
    by (auto simp: assign_agent_def split: option.splits prod.splits)
  then show ?thesis using assms by (intro registry_ok_update[OF assms, of _ "a_id a"]) simp_all
qed

lemma registry_ok_tryAssign: "registry_ok c \<Longrightarrow> registry_ok (tryAssignTasks now c)"
proof -
  have "registry_ok c \<Longrightarrow> registry_ok (foldl (assign_agent now) c as)" for as
    by (induction as arbitrary: c) (simp_all add: registry_ok_assign_agent)
  then show "registry_ok c \<Longrightarrow> registry_ok (tryAssignTasks now c)"
    by (simp add: tryAssignTasks_def)
qed

lemma registry_ok_alarm_agent:
  assumes "registry_ok c" "a_id a = k"
  shows "registry_ok (alarm_agent now c (k, a))"
proof (cases "agents (alarm_agent now c (k, a)) = agents c")
  case True
  then show ?thesis using assms by (simp add: registry_ok_same)
next
  case False
  then have "agents (alarm_agent now c (k, a)) = AList.update k (a\<lparr>a_status := Offline\<rparr>) (agents c)"
    by (auto simp: alarm_agent_def Let_def split: option.splits if_splits)
  then show ?thesis using assms by (intro registry_ok_update[OF assms(1), of _ k]) simp_all
qed

lemma registry_ok_alarm: "registry_ok c \<Longrightarrow> registry_ok (alarm now c)"
proof -
  have "registry_ok c \<Longrightarrow> \<forall>(k, a) \<in> set es. a_id a = k
        \<Longrightarrow> registry_ok (foldl (alarm_agent now) c es)" for es
  proof (induction es arbitrary: c)
    case Nil
    then show ?case by simp
  next
    case (Cons e es)
    obtain k a where e: "e = (k, a)" by (cases e)
    then have "registry_ok (alarm_agent now c (k, a))"
      using Cons.prems by (intro registry_ok_alarm_agent) auto
    then show ?case using Cons e by simp
  qed
  moreover assume r: "registry_ok c"
  moreover have "\<forall>(k, a) \<in> set (agents c). a_id a = k"
    using r by (simp add: registry_ok_def list_all_iff)
  ultimately have "registry_ok (foldl (alarm_agent now) c (agents c))" by blast
  then show ?thesis unfolding alarm_def Let_def by (rule registry_ok_same) simp
qed

lemma registry_ok_exec:
  assumes r: "registry_ok c"
  shows "registry_ok (exec_op she c op)"
proof (cases op)
  case (Register agentId name type caps now)
  then show ?thesis
    by (auto simp: handleRegisterAgent_def Let_def intro!: registry_ok_update[OF r, of _ agentId])
next
  case (Heartbeat agentId status now)
  then show ?thesis using r
    by (auto simp: handleHeartbeat_def Let_def registry_ok_iff[of c]
          intro!: registry_ok_update[OF r, of _ agentId] split: option.splits)
next
  case (Submit taskId type description input prio parent now)
  have "registry_ok (c\<lparr>tasks := ts, taskQueue := q\<rparr>)" for ts q
    by (rule registry_ok_same[OF r]) simp
  then show ?thesis using Submit
    by (simp add: handleSubmitTask_def Let_def registry_ok_tryAssign)
next
  case (RequestNext agentId now)
  then show ?thesis using r
    by (auto simp: handleGetNextTask_def Let_def registry_ok_iff[of c]
          intro!: registry_ok_update[OF r, of _ agentId] split: option.splits prod.splits)
next
  case (Complete taskId agentId out now)
  then show ?thesis using r
    by (auto simp: handleCompleteTask_def complete_update_def registry_ok_iff[of c]
          intro!: registry_ok_tryAssign registry_ok_update[OF r, of _ agentId] split: option.splits)
next
  case (Fail taskId agentId err shouldRetry now)
  then show ?thesis using r
    by (auto simp: handleFailTask_def Let_def registry_ok_iff[of c]
          intro!: registry_ok_update[OF r, of _ agentId] split: option.splits)
next
  case (Sweep now)
  then show ?thesis using r by (simp add: registry_ok_alarm)
qed

lemma registry_ok_reachable: "reachable she c \<Longrightarrow> registry_ok c"
proof (induction rule: reachable.induct)
  case initial
  show ?case by (simp add: registry_ok_def empty_coordinator_def)
next
  case (step c op)
  then show ?case by (intro registry_ok_exec)
qed

subsection \<open>What the assignment pass leaves alone\<close>





subsection \<open>The backlog scan and the failure path\<close>

lemma splice_first_split:
  "splice_first ok xs = Some (y, ys) \<Longrightarrow>
     \<exists>pre post. xs = pre @ y # post \<and> ys = pre @ post \<and> ok y \<and> (\<forall>x \<in> set pre. \<not> ok x)"
proof (induction xs arbitrary: ys)
  case Nil
  then show ?case by simp
next
  case (Cons x xs)
  show ?case
  proof (cases "ok x")
    case True
    with Cons.prems have "y = x" "ys = xs" by simp_all
    with True show ?thesis by (intro exI[of _ "[]"] exI[of _ xs]) simp
  next
    case False
    with Cons.prems obtain zs where z: "splice_first ok xs = Some (y, zs)" "ys = x # zs"
      by (auto split: option.splits)
    from Cons.IH[OF z(1)] obtain pre post where
      "xs = pre @ y # post" "zs = pre @ post" "ok y" "\<forall>x \<in> set pre. \<not> ok x" by blast
    with False z(2) show ?thesis
      by (intro exI[of _ "x # pre"] exI[of _ post]) simp
  qed
qed

lemma splice_first_at:
  assumes "\<forall>x \<in> set pre. \<not> ok x" "ok y"
  shows "splice_first ok (pre @ y # post) = Some (y, pre @ post)"
  using assms by (induction pre) simp_all

lemma splice_first_none: "splice_first ok xs = None \<longleftrightarrow> (\<forall>x \<in> set xs. \<not> ok x)"
  by (induction xs) (auto split: option.splits)

text \<open>The inner scan of the pass: the first queued task that is pending and that the agent
  can handle is taken out of the backlog and assigned; with no such task nothing changes.\<close>

lemma assign_agent_first_match:
  assumes "taskQueue c = pre @ taskId # post"
    and "\<forall>x \<in> set pre. \<not> assignable c agent x"
    and "map_of (tasks c) taskId = Some task" "t_status task = TPending"
      "canAgentHandleTask agent task"
  shows "assign_agent now c agent =
     c\<lparr>taskQueue := pre @ post,
       tasks := AList.update taskId
         (task\<lparr>t_agentId := a_id agent, t_status := TRunning, t_startedAt := Some now\<rparr>)
         (tasks c),
       agents := AList.update (a_id agent)
         (agent\<lparr>a_status := Busy, a_currentTaskId := Some taskId\<rparr>) (agents c)\<rparr>"
proof -
  have "assignable c agent taskId" using assms(3-5) by (simp add: assignable_def)
  then have "splice_first (assignable c agent) (taskQueue c) = Some (taskId, pre @ post)"
    unfolding assms(1) using assms(2) by (intro splice_first_at) simp_all
  then show ?thesis using assms(3) by (simp add: assign_agent_def)
qed

lemma assign_agent_no_match:
  assumes "\<forall>x \<in> set (taskQueue c). \<not> assignable c agent x"
  shows "assign_agent now c agent = c"
  using assms by (simp add: assign_agent_def splice_first_none[THEN iffD2])

text \<open>The failure path: the retried task goes to the front as \<open>retrying\<close>, no other task
  is touched, and a task that is \<open>retrying\<close> passes neither scan.\<close>

lemma fail_task_retry:
  assumes "map_of (tasks c) taskId = Some task" "map_of (agents c) agentId = Some agent"
  shows "handleFailTask she c taskId agentId err (Some True) now =
     (c\<lparr>taskQueue := taskId # taskQueue c,
        tasks := AList.update taskId (task\<lparr>t_status := TRetrying, t_agentId := []\<rparr>) (tasks c),
        agents := AList.update agentId
          (agent\<lparr>a_status := Idle, a_currentTaskId := None,
                 a_tasksFailed := Suc (a_tasksFailed agent)\<rparr>) (agents c)\<rparr>,
      FailedTask (task\<lparr>t_status := TRetrying, t_agentId := []\<rparr>) None)"
  using assms by (simp add: handleFailTask_def Let_def)

lemma fail_task_assigns_nothing:
  assumes "k \<noteq> taskId"
  shows "map_of (tasks (fst (handleFailTask she c taskId agentId err shouldRetry now))) k
         = map_of (tasks c) k"
  using assms
  by (simp add: handleFailTask_def Let_def update_conv' split: option.splits)

lemma retrying_not_assignable:
  "map_of (tasks c) taskId = Some task \<Longrightarrow> t_status task = TRetrying
     \<Longrightarrow> \<not> assignable c agent taskId"
  by (simp add: assignable_def)

lemma next_task_was_pending:
  assumes "snd (handleGetNextTask c agentId now) = NextTask task'"
  shows "\<exists>taskId task. taskId \<in> set (taskQueue c) \<and> map_of (tasks c) taskId = Some task
           \<and> t_status task = TPending
           \<and> task' = task\<lparr>t_agentId := agentId, t_status := TRunning, t_startedAt := Some now\<rparr>"
proof (cases "map_of (agents c) agentId")
  case None
  then show ?thesis using assms by (simp add: handleGetNextTask_def)
next
  case (Some agent)
  show ?thesis
  proof (cases "splice_first (assignable c agent) (taskQueue c)")
    case None
    then show ?thesis using assms Some by (simp add: handleGetNextTask_def split: if_splits)
  next
    case sp: (Some p)
    obtain taskId rest where p: "p = (taskId, rest)" by (cases p)
    from splice_first_split[OF sp[unfolded p]]
    have q: "taskId \<in> set (taskQueue c)" "assignable c agent taskId" by auto
    then obtain task where t: "map_of (tasks c) taskId = Some task" "t_status task = TPending"
      by (auto simp: assignable_def split: option.splits)
    show ?thesis
      using assms Some sp p t q(1)
      by (auto simp: handleGetNextTask_def Let_def split: if_splits)
  qed
qed

subsection \<open>Claims about the coordinator\<close>






text \<open>
  C9. For a registered agent, \<open>handleHeartbeat\<close> leaves the tasks and the backlog as they
  are, keeps the registry's keys and order and every other agent's entry, and changes the
  agent's entry only in \<open>lastHeartbeat\<close> and, when a status is supplied, in \<open>status\<close>; its
  \<open>currentTaskId\<close> stays. So a heartbeat that sets a busy agent idle leaves \<open>currentTaskId\<close>
  set and the task running and assigned to the agent.
\<close>

theorem heartbeat_frame:
  assumes "map_of (agents c) agentId = Some agent"
  shows "(let c' = fst (handleHeartbeat c agentId status now) in
           tasks c' = tasks c \<and> taskQueue c' = taskQueue c
           \<and> map fst (agents c') = map fst (agents c)
           \<and> (\<forall>k. k \<noteq> agentId \<longrightarrow> map_of (agents c') k = map_of (agents c) k)
           \<and> map_of (agents c') agentId =
               Some (agent\<lparr>a_lastHeartbeat := now,
                           a_status := (case status of None \<Rightarrow> a_status agent | Some s \<Rightarrow> s)\<rparr>)
           \<and> map_option a_currentTaskId (map_of (agents c') agentId)
               = Some (a_currentTaskId agent))"
proof -
  from assms have "agentId \<in> set (map fst (agents c))"
    by (metis map_of_eq_None_iff option.distinct(1) set_map)
  then show ?thesis using assms
    by (simp add: handleHeartbeat_def Let_def update_conv' update_keys split: option.splits)
qed

theorem heartbeat_frame_witness:
  "map_of (agents sc_running) ''agent-1'' = Some sc_agent_busy
   \<and> a_status sc_agent_busy = Busy
   \<and> a_currentTaskId sc_agent_busy = Some ''task-1''
   \<and> map_of (tasks sc_running) ''task-1'' = Some sc_task_running
   \<and> t_status sc_task_running = TRunning \<and> t_agentId sc_task_running = ''agent-1''
   \<and> tasks (fst (handleHeartbeat sc_running ''agent-1'' (Some Idle) 2500)) = tasks sc_running
   \<and> taskQueue (fst (handleHeartbeat sc_running ''agent-1'' (Some Idle) 2500))
       = taskQueue sc_running
   \<and> map_of (agents (fst (handleHeartbeat sc_running ''agent-1'' (Some Idle) 2500))) ''agent-1''
       = Some (sc_agent_busy\<lparr>a_lastHeartbeat := 2500,
                 a_status := (case Some Idle of None \<Rightarrow> a_status sc_agent_busy | Some s \<Rightarrow> s)\<rparr>)
   \<and> map_option a_currentTaskId
         (map_of (agents (fst (handleHeartbeat sc_running ''agent-1'' (Some Idle) 2500)))
            ''agent-1'')
       = Some (a_currentTaskId sc_agent_busy)"
proof -
  have h: "map_of (agents sc_running) ''agent-1'' = Some sc_agent_busy"
    by code_simp
  have t: "map_of (tasks sc_running) ''task-1'' = Some sc_task_running"
    by code_simp
  note f = heartbeat_frame[OF h, where status = "Some Idle" and now = 2500, unfolded Let_def]
  show ?thesis
    by (intro conjI h t f[THEN conjunct1] f[THEN conjunct2, THEN conjunct1]
          f[THEN conjunct2, THEN conjunct2, THEN conjunct2, THEN conjunct2, THEN conjunct1]
          f[THEN conjunct2, THEN conjunct2, THEN conjunct2, THEN conjunct2, THEN conjunct2])
       (simp_all add: sc_agent_busy_def sc_task_running_def)
qed






text \<open>
  C4. The first half holds (\<open>fail_task_retry\<close>): after \<open>handleFailTask\<close> with \<open>shouldRetry\<close>
  the task is \<open>retrying\<close>, unassigned and at the front of the backlog. The second half does
  not: both scans hand out \<open>pending\<close> tasks only (\<open>retrying_not_assignable\<close>,
  \<open>next_task_was_pending\<close>), so the retried task is never served. With the retried
  \<open>task-1\<close> alone in the backlog, the idle fixer agent that can handle it is told that there
  is no suitable task; with the later \<open>task-2\<close> pending behind it, the agent receives
  \<open>task-2\<close> and \<open>task-1\<close> stays at the front.
\<close>

theorem retried_task_not_served:
  "map_option t_status (map_of (tasks sc_retried) ''task-1'') = Some TRetrying
   \<and> map_option t_agentId (map_of (tasks sc_retried) ''task-1'') = Some []
   \<and> taskQueue sc_retried = [''task-1'']
   \<and> map_option a_status (map_of (agents sc_retried) ''agent-1'') = Some Idle
   \<and> map_option (\<lambda>a. map_option (canAgentHandleTask a) (map_of (tasks sc_retried) ''task-1''))
        (map_of (agents sc_retried) ''agent-1'') = Some (Some True)
   \<and> handleGetNextTask sc_retried ''agent-1'' 3050 = (sc_retried, NoTask ''No suitable tasks'')
   \<and> taskQueue sc_back = [''task-1'', ''task-2'']
   \<and> map_option a_status (map_of (agents sc_back) ''agent-1'') = Some Idle
   \<and> map_option t_status (map_of (tasks sc_back) ''task-2'') = Some TPending
   \<and> snd (handleGetNextTask sc_back ''agent-1'' 3400)
       = NextTask \<lparr>t_id = ''task-2'', t_agentId = ''agent-1'', t_type = ''cohesion:fix'',
                   t_description = ''fix more'', t_status = TRunning, t_input = ''{}'',
                   t_output = None, t_error = None, t_createdAt = 3200,
                   t_startedAt = Some 3400, t_completedAt = None, t_parentTaskId = None\<rparr>
   \<and> taskQueue (fst (handleGetNextTask sc_back ''agent-1'' 3400)) = [''task-1'']"
  by (intro conjI) code_simp+

text \<open>
  C5. The pass itself is as the claim says (\<open>assign_agent_first_match\<close>), and
  \<open>handleSubmitTask\<close> and \<open>handleCompleteTask\<close> end with it. It does not run after a
  failure: \<open>handleFailTask\<close> never calls \<open>tryAssignTasks\<close> and touches no task but the failed
  one (\<open>fail_task_assigns_nothing\<close>). When \<open>agent-1\<close> fails \<open>task-1\<close> while \<open>task-2\<close> waits, the call returns with
  the agent idle and \<open>task-2\<close> still pending in the backlog, although the agent can handle it
  and a pass on that state would assign it; the completion of \<open>task-1\<close> in the same state
  does assign it.
\<close>

theorem fail_runs_no_assignment:
  "sc_failed = fst (handleFailTask False sc_waiting ''task-1'' ''agent-1'' ''boom'' None 4000)
   \<and> map_option a_status (map_of (agents sc_failed) ''agent-1'') = Some Idle
   \<and> taskQueue sc_failed = [''task-2'']
   \<and> map_option t_status (map_of (tasks sc_failed) ''task-2'') = Some TPending
   \<and> map_option (\<lambda>a. assignable sc_failed a ''task-2'') (map_of (agents sc_failed) ''agent-1'')
       = Some True
   \<and> tryAssignTasks 4000 sc_failed \<noteq> sc_failed
   \<and> taskQueue (tryAssignTasks 4000 sc_failed) = []
   \<and> taskQueue sc_completed = []
   \<and> map_option t_status (map_of (tasks sc_completed) ''task-2'') = Some TRunning"
  by (intro conjI sc_failed_def) code_simp+

section \<open>JobQueue: proofs\<close>

subsection \<open>The dequeue scan\<close>

lemma splice_first_find:
  "splice_first ok xs = None \<longleftrightarrow> find ok xs = None"
  by (induction xs) (auto split: option.splits)

lemma splice_first_find_Some:
  "splice_first ok xs = Some (y, ys) \<Longrightarrow> find ok xs = Some y"
  by (induction xs arbitrary: ys) (auto split: option.splits if_splits)

lemma find_append_first:
  "find P (xs @ ys) = (case find P xs of None \<Rightarrow> find P ys | Some x \<Rightarrow> Some x)"
  by (induction xs) simp_all

lemma eligibleD: "eligible q now types jid \<Longrightarrow> \<exists>job. map_of (jobs q) jid = Some job"
  by (auto simp: eligible_def split: option.splits)

lemma dequeue_from_first:
  "(case find (eligible q now types) (concat (map (priorityQueues q) ps)) of
      None \<Rightarrow> dequeue_from q now types ps = (q, Dequeued None)
    | Some jid \<Rightarrow>
        (\<exists>job. map_of (jobs q) jid = Some job
           \<and> snd (dequeue_from q now types ps)
               = Dequeued (Some (job\<lparr>j_status := JProcessing, j_startedAt := Some now\<rparr>))))"
proof (induction ps)
  case Nil
  then show ?case by simp
next
  case (Cons p ps)
  show ?case
  proof (cases "splice_first (eligible q now types) (priorityQueues q p)")
    case None
    then have "find (eligible q now types) (priorityQueues q p) = None"
      by (simp add: splice_first_find)
    then have eq: "find (eligible q now types) (concat (map (priorityQueues q) (p # ps)))
               = find (eligible q now types) (concat (map (priorityQueues q) ps))"
      by (simp add: find_append_first)
    have step: "dequeue_from q now types (p # ps) = dequeue_from q now types ps"
      using None by simp
    show ?thesis unfolding step eq by (rule Cons.IH)
  next
    case (Some r)
    obtain jid rest where r: "r = (jid, rest)" by (cases r)
    have f: "find (eligible q now types) (priorityQueues q p) = Some jid"
      using Some r by (simp add: splice_first_find_Some)
    then have c: "find (eligible q now types) (concat (map (priorityQueues q) (p # ps))) = Some jid"
      by (simp add: find_append_first)
    have "eligible q now types jid" using f by (auto simp: find_Some_iff)
    then obtain job where "map_of (jobs q) jid = Some job" using eligibleD by blast
    then show ?thesis using Some r c by (simp add: Let_def)
  qed
qed

lemma enqueue_lanes:
  "priorityQueues (fst (handleEnqueue q jid ty pl (Some p) r e))
     = (priorityQueues q)(p := priorityQueues q p @ [jid])"
  by (simp add: handleEnqueue_def Let_def)

lemma enqueue_ready_new: "ready (fst (handleEnqueue q jid ty pl prio r e)) jid"
  by (simp add: handleEnqueue_def Let_def ready_def update_conv')

lemma enqueue_ready_old:
  "jid' \<noteq> jid \<Longrightarrow> ready (fst (handleEnqueue q jid ty pl prio r e)) jid' = ready q jid'"
  by (simp add: handleEnqueue_def Let_def ready_def update_conv')

lemma ready_eligible: "ready q jid \<Longrightarrow> eligible q now None jid"
  by (auto simp: ready_def eligible_def split: option.splits)

lemma dequeue_skip_empty:
  assumes "\<forall>p' \<in> set pre. priorityQueues q p' = []"
  shows "dequeue_from q now types (pre @ ps) = dequeue_from q now types ps"
  using assms by (induction pre) simp_all

lemma dequeue_head:
  assumes "priorityQueues q p = jid # rest" "ready q jid"
  shows "dequeued_id (snd (dequeue_from q now None (p # ps))) = Some jid"
    and "priorityQueues (fst (dequeue_from q now None (p # ps))) = (priorityQueues q)(p := rest)"
    and "jid' \<noteq> jid \<Longrightarrow> ready (fst (dequeue_from q now None (p # ps))) jid' = ready q jid'"
proof -
  from assms(2) obtain job where job: "map_of (jobs q) jid = Some job" "j_id job = jid"
    by (auto simp: ready_def split: option.splits)
  have sp: "splice_first (eligible q now None) (priorityQueues q p) = Some (jid, rest)"
    using assms ready_eligible[OF assms(2)] by simp
  have run: "dequeue_from q now None (p # ps) =
     (q\<lparr>priorityQueues := (priorityQueues q)(p := rest),
        jobs := AList.update jid (job\<lparr>j_status := JProcessing, j_startedAt := Some now\<rparr>) (jobs q),
        stats := (stats q)\<lparr>s_pending := s_pending (stats q) - 1,
                           s_processing := s_processing (stats q) + 1\<rparr>\<rparr>,
      Dequeued (Some (job\<lparr>j_status := JProcessing, j_startedAt := Some now\<rparr>)))"
    using sp job by (simp add: Let_def)
  show "dequeued_id (snd (dequeue_from q now None (p # ps))) = Some jid"
    unfolding run using job by simp
  show "priorityQueues (fst (dequeue_from q now None (p # ps))) = (priorityQueues q)(p := rest)"
    unfolding run by simp
  show "jid' \<noteq> jid \<Longrightarrow> ready (fst (dequeue_from q now None (p # ps))) jid' = ready q jid'"
    unfolding run by (simp add: ready_def update_conv')
qed

lemma dequeue_nothing:
  assumes "\<forall>p \<in> set ps. priorityQueues q p = []"
  shows "dequeue_from q now types ps = (q, Dequeued None)"
  using assms by (induction ps) simp_all


lemma handleDequeue_at:
  assumes "[Critical, High, Normal, Low] = pre @ p # ps"
    and "\<forall>p' \<in> set pre. priorityQueues q p' = []"
    and "priorityQueues q p = jid # rest" "ready q jid"
  shows "dequeued_id (snd (handleDequeue q w None now)) = Some jid"
    and "priorityQueues (fst (handleDequeue q w None now)) = (priorityQueues q)(p := rest)"
    and "\<And>jid'. jid' \<noteq> jid \<Longrightarrow> ready (fst (handleDequeue q w None now)) jid' = ready q jid'"
  unfolding handleDequeue_def assms(1) dequeue_skip_empty[OF assms(2)]
  using dequeue_head[OF assms(3,4)] by blast+

lemma handleDequeue_nothing:
  assumes "\<forall>p. priorityQueues q p = []"
  shows "handleDequeue q w types now = (q, Dequeued None)"
  unfolding handleDequeue_def using assms by (intro dequeue_nothing) simp

lemma dequeue_scenario:
  assumes d: "distinct [a, b, c, d]"
  shows "(let q1 = fst (handleEnqueue empty_queue a ta pa (Some Low) ra ea);
             q2 = fst (handleEnqueue q1 b tb pb (Some Critical) rb eb);
             q3 = fst (handleEnqueue q2 c tc pc (Some Normal) rc ec);
             q4 = fst (handleEnqueue q3 d td pd (Some High) rd ed);
             r1 = handleDequeue q4 wa None xa;
             r2 = handleDequeue (fst r1) wb None xb;
             r3 = handleDequeue (fst r2) wc None xc;
             r4 = handleDequeue (fst r3) wd None xd;
             r5 = handleDequeue (fst r4) we None xe
         in map (\<lambda>r. dequeued_id (snd r)) [r1, r2, r3, r4, r5]
              = [Some b, Some d, Some c, Some a, None])"
proof -
  let ?q1 = "fst (handleEnqueue empty_queue a ta pa (Some Low) ra ea)"
  let ?q2 = "fst (handleEnqueue ?q1 b tb pb (Some Critical) rb eb)"
  let ?q3 = "fst (handleEnqueue ?q2 c tc pc (Some Normal) rc ec)"
  let ?q4 = "fst (handleEnqueue ?q3 d td pd (Some High) rd ed)"
  let ?r1 = "handleDequeue ?q4 wa None xa"
  let ?r2 = "handleDequeue (fst ?r1) wb None xb"
  let ?r3 = "handleDequeue (fst ?r2) wc None xc"
  let ?r4 = "handleDequeue (fst ?r3) wd None xd"
  let ?r5 = "handleDequeue (fst ?r4) we None xe"
  have l4: "priorityQueues ?q4 = (\<lambda>p. [])(Low := [a], Critical := [b], Normal := [c], High := [d])"
    by (simp add: enqueue_lanes empty_queue_def)
  have ne: "a \<noteq> b" "a \<noteq> c" "a \<noteq> d" "b \<noteq> c" "b \<noteq> d" "c \<noteq> d"
    "b \<noteq> a" "c \<noteq> a" "d \<noteq> a" "c \<noteq> b" "d \<noteq> b" "d \<noteq> c"
    using d by auto
  have y4: "ready ?q4 a" "ready ?q4 b" "ready ?q4 c" "ready ?q4 d"
    by (simp_all add: enqueue_ready_new enqueue_ready_old ne)
  note n1 = handleDequeue_at[where pre = "[]" and p = Critical and ps = "[High, Normal, Low]"
      and q = ?q4 and jid = b and rest = "[]" and w = wa and now = xa]
  have s1: "dequeued_id (snd ?r1) = Some b"
    by (rule n1(1)) (simp_all add: l4 y4)
  have l1: "priorityQueues (fst ?r1) = (\<lambda>p. [])(Low := [a], Normal := [c], High := [d])"
    by (subst n1(2)) (simp_all add: l4 y4 fun_eq_iff)
  have y1: "ready (fst ?r1) a" "ready (fst ?r1) c" "ready (fst ?r1) d"
    by (simp_all add: ne n1(3) l4 y4)
  note n2 = handleDequeue_at[where pre = "[Critical]" and p = High and ps = "[Normal, Low]"
      and q = "fst ?r1" and jid = d and rest = "[]" and w = wb and now = xb]
  have s2: "dequeued_id (snd ?r2) = Some d"
    by (rule n2(1)) (simp_all add: l1 y1)
  have l2: "priorityQueues (fst ?r2) = (\<lambda>p. [])(Low := [a], Normal := [c])"
    by (subst n2(2)) (simp_all add: l1 y1 fun_eq_iff)
  have y2: "ready (fst ?r2) a" "ready (fst ?r2) c"
    by (simp_all add: ne n2(3) l1 y1)
  note n3 = handleDequeue_at[where pre = "[Critical, High]" and p = Normal and ps = "[Low]"
      and q = "fst ?r2" and jid = c and rest = "[]" and w = wc and now = xc]
  have s3: "dequeued_id (snd ?r3) = Some c"
    by (rule n3(1)) (simp_all add: l2 y2)
  have l3: "priorityQueues (fst ?r3) = (\<lambda>p. [])(Low := [a])"
    by (subst n3(2)) (simp_all add: l2 y2 fun_eq_iff)
  have y3: "ready (fst ?r3) a"
    by (simp_all add: ne n3(3) l2 y2)
  note n4 = handleDequeue_at[where pre = "[Critical, High, Normal]" and p = Low and ps = "[]"
      and q = "fst ?r3" and jid = a and rest = "[]" and w = wd and now = xd]
  have s4: "dequeued_id (snd ?r4) = Some a"
    by (rule n4(1)) (simp_all add: l3 y3)
  have l4': "priorityQueues (fst ?r4) = (\<lambda>p. [])"
    by (subst n4(2)) (simp_all add: l3 y3 fun_eq_iff)
  have s5: "dequeued_id (snd ?r5) = None"
    by (subst handleDequeue_nothing) (simp_all add: l4')
  show ?thesis
    unfolding Let_def using s1 s2 s3 s4 s5 by simp
qed

subsection \<open>Failing a job\<close>






subsection \<open>Claims about the job queue\<close>



text \<open>
  C3. \<open>handleDequeue\<close> returns the first eligible job of the lanes read in the order
  critical, high, normal, low, each from front to back, or no job when none is eligible.
  So for four jobs with distinct ids enqueued into the empty queue as (low, a), (critical, b),
  (normal, c), (high, d), with no schedule and no type filter, successive dequeues return
  b, d, c, a, and the fifth returns no job.
\<close>

theorem dequeue_priority_order:
  "(case find (eligible q now types)
          (priorityQueues q Critical @ priorityQueues q High @ priorityQueues q Normal
           @ priorityQueues q Low) of
      None \<Rightarrow> handleDequeue q workerId types now = (q, Dequeued None)
    | Some jid \<Rightarrow>
        (\<exists>job. map_of (jobs q) jid = Some job
           \<and> snd (handleDequeue q workerId types now)
               = Dequeued (Some (job\<lparr>j_status := JProcessing, j_startedAt := Some now\<rparr>))))
   \<and> (distinct [a, b, c, d] \<longrightarrow>
        (let q1 = fst (handleEnqueue empty_queue a ta pa (Some Low) ra ea);
             q2 = fst (handleEnqueue q1 b tb pb (Some Critical) rb eb);
             q3 = fst (handleEnqueue q2 c tc pc (Some Normal) rc ec);
             q4 = fst (handleEnqueue q3 d td pd (Some High) rd ed);
             r1 = handleDequeue q4 wa None xa;
             r2 = handleDequeue (fst r1) wb None xb;
             r3 = handleDequeue (fst r2) wc None xc;
             r4 = handleDequeue (fst r3) wd None xd;
             r5 = handleDequeue (fst r4) we None xe
         in map (\<lambda>r. dequeued_id (snd r)) [r1, r2, r3, r4, r5]
              = [Some b, Some d, Some c, Some a, None]))"
proof (intro conjI impI)
  show "case find (eligible q now types)
          (priorityQueues q Critical @ priorityQueues q High @ priorityQueues q Normal
           @ priorityQueues q Low) of
      None \<Rightarrow> handleDequeue q workerId types now = (q, Dequeued None)
    | Some jid \<Rightarrow>
        (\<exists>job. map_of (jobs q) jid = Some job
           \<and> snd (handleDequeue q workerId types now)
               = Dequeued (Some (job\<lparr>j_status := JProcessing, j_startedAt := Some now\<rparr>)))"
    unfolding handleDequeue_def
    using dequeue_from_first[of q now types "[Critical, High, Normal, Low]"] by simp
qed (rule dequeue_scenario)

theorem dequeue_priority_order_witness:
  "distinct [''A'', ''B'', ''C'', ''D'']
   \<and> (let q1 = fst (handleEnqueue empty_queue ''A'' ''repo:sync'' ''{}'' (Some Low) None 10);
             q2 = fst (handleEnqueue q1 ''B'' ''repo:sync'' ''{}'' (Some Critical) None 20);
             q3 = fst (handleEnqueue q2 ''C'' ''repo:sync'' ''{}'' (Some Normal) None 30);
             q4 = fst (handleEnqueue q3 ''D'' ''repo:sync'' ''{}'' (Some High) None 40);
             r1 = handleDequeue q4 ''w'' None 50;
             r2 = handleDequeue (fst r1) ''w'' None 60;
             r3 = handleDequeue (fst r2) ''w'' None 70;
             r4 = handleDequeue (fst r3) ''w'' None 80;
             r5 = handleDequeue (fst r4) ''w'' None 90
         in map (\<lambda>r. dequeued_id (snd r)) [r1, r2, r3, r4, r5]
              = [Some ''B'', Some ''D'', Some ''C'', Some ''A'', None])"
proof
  show d: "distinct [''A'', ''B'', ''C'', ''D'']" by simp
  show "let q1 = fst (handleEnqueue empty_queue ''A'' ''repo:sync'' ''{}'' (Some Low) None 10);
             q2 = fst (handleEnqueue q1 ''B'' ''repo:sync'' ''{}'' (Some Critical) None 20);
             q3 = fst (handleEnqueue q2 ''C'' ''repo:sync'' ''{}'' (Some Normal) None 30);
             q4 = fst (handleEnqueue q3 ''D'' ''repo:sync'' ''{}'' (Some High) None 40);
             r1 = handleDequeue q4 ''w'' None 50;
             r2 = handleDequeue (fst r1) ''w'' None 60;
             r3 = handleDequeue (fst r2) ''w'' None 70;
             r4 = handleDequeue (fst r3) ''w'' None 80;
             r5 = handleDequeue (fst r4) ''w'' None 90
         in map (\<lambda>r. dequeued_id (snd r)) [r1, r2, r3, r4, r5]
              = [Some ''B'', Some ''D'', Some ''C'', Some ''A'', None]"
    using dequeue_priority_order[where a = "''A''" and b = "''B''" and c = "''C''" and d = "''D''"
        and ta = "''repo:sync''" and tb = "''repo:sync''" and tc = "''repo:sync''"
        and td = "''repo:sync''" and pa = "''{}''" and pb = "''{}''" and pc = "''{}''"
        and pd = "''{}''" and ra = None and rb = None and rc = None and rd = None
        and ea = 10 and eb = 20 and ec = 30 and ed = 40
        and wa = "''w''" and wb = "''w''" and wc = "''w''" and wd = "''w''" and we = "''w''"
        and xa = 50 and xb = 60 and xc = 70 and xd = 80 and xe = 90,
        THEN conjunct2, THEN mp, OF d]
    by assumption
qed

section \<open>SelfHealer: proofs\<close>

subsection \<open>Normalizing an error text\<close>

lemma uuid_classes_list:
  "uuid_classes =
     [is_hex, is_hex, is_hex, is_hex, is_hex, is_hex, is_hex, is_hex, (\<lambda>c. c = CHR ''-''),
      is_hex, is_hex, is_hex, is_hex, (\<lambda>c. c = CHR ''-''),
      is_hex, is_hex, is_hex, is_hex, (\<lambda>c. c = CHR ''-''),
      is_hex, is_hex, is_hex, is_hex, (\<lambda>c. c = CHR ''-''),
      is_hex, is_hex, is_hex, is_hex, is_hex, is_hex, is_hex, is_hex, is_hex, is_hex, is_hex,
      is_hex]"
  by (simp add: uuid_classes_def eval_nat_numeral)

lemma match_classes_append:
  "match_classes ks s \<Longrightarrow> match_classes ks (s @ t)"
  by (induction ks s rule: match_classes.induct) simp_all

lemma match_classes_mem:
  "match_classes (ks @ k # ks') s \<Longrightarrow> \<exists>c \<in> set s. k c"
proof (induction ks arbitrary: s)
  case Nil
  then show ?case by (cases s) auto
next
  case (Cons a ks)
  then show ?case by (cases s) auto
qed

lemma match_uuid_dash: "match_uuid s = Some n \<Longrightarrow> CHR ''-'' \<in> set s"
proof -
  assume "match_uuid s = Some n"
  then have "match_classes (replicate 8 is_hex @ (\<lambda>c. c = CHR ''-'') #
      (replicate 4 is_hex @ [\<lambda>c. c = CHR ''-''] @ replicate 4 is_hex @ [\<lambda>c. c = CHR ''-'']
       @ replicate 4 is_hex @ [\<lambda>c. c = CHR ''-''] @ replicate 12 is_hex)) s"
    by (simp add: match_uuid_def uuid_classes_def split: if_splits)
  from match_classes_mem[OF this] show ?thesis by auto
qed

lemma replace_uuid_no_dash:
  "CHR ''-'' \<notin> set s \<Longrightarrow> replace_all match_uuid r s = s"
proof (induction s)
  case Nil
  then show ?case by simp
next
  case (Cons c cs)
  have "match_uuid (c # cs) = None"
    using Cons.prems match_uuid_dash[of "c # cs"] by (cases "match_uuid (c # cs)") auto
  then show ?case using Cons by simp
qed

lemma replace_uuid_here:
  assumes "is_uuid u"
  shows "replace_all match_uuid r (u @ rest) = r @ replace_all match_uuid r rest"
proof -
  from assms obtain c cs where u: "u = c # cs" "length cs = 35"
    by (cases u) (auto simp: is_uuid_def)
  have "match_uuid (c # cs @ rest) = Some 36"
    using assms match_classes_append[of uuid_classes u rest] u
    by (simp add: match_uuid_def is_uuid_def)
  then show ?thesis using u by simp
qed

lemma replace_digits_here:
  assumes "n \<noteq> []" "list_all is_digit n" "rest = [] \<or> \<not> is_digit (hd rest)"
  shows "replace_all match_digits r (n @ rest) = r @ replace_all match_digits r rest"
proof -
  from assms(1) obtain c cs where n: "n = c # cs" by (cases n) auto
  have tw: "takeWhile is_digit (n @ rest) = n"
  proof -
    have "takeWhile is_digit rest = []" using assms(3) by (cases rest) auto
    moreover have "takeWhile is_digit (n @ rest) = n @ takeWhile is_digit rest"
      using assms(2) by (intro takeWhile_append2) (simp add: list_all_iff)
    ultimately show ?thesis by simp
  qed
  have "match_digits (c # cs @ rest) = Some (length n)"
    using tw n by (simp add: match_digits_def Let_def)
  then show ?thesis using n by simp
qed

lemma not_digit_dash: "\<not> is_digit (CHR ''-'')"
  by (simp add: is_digit_def)

lemma digits_no_dash: "list_all is_digit n \<Longrightarrow> CHR ''-'' \<notin> set n"
  using not_digit_dash by (auto simp: list_all_iff)

lemma uuid_pass:
  assumes "is_uuid u" "list_all is_digit n"
  shows "replace_all match_uuid ''<UUID>'' (''Failed job '' @ u @ '' after '' @ n @ '' retries'')
         = ''Failed job <UUID> after '' @ n @ '' retries''"
proof -
  have tail: "replace_all match_uuid ''<UUID>'' ('' after '' @ n @ '' retries'')
              = '' after '' @ n @ '' retries''"
    using digits_no_dash[OF assms(2)] by (intro replace_uuid_no_dash) simp
  have mid: "replace_all match_uuid ''<UUID>'' (u @ '' after '' @ n @ '' retries'')
             = ''<UUID>'' @ '' after '' @ n @ '' retries''"
    unfolding replace_uuid_here[OF assms(1)] tail ..
  have pre: "replace_all match_uuid ''<UUID>'' (''Failed job '' @ t) =
             ''Failed job '' @ replace_all match_uuid ''<UUID>'' t" for t
    by (simp add: match_uuid_def uuid_classes_list is_hex_def)
  show ?thesis unfolding pre mid by simp
qed


lemma digit_pass:
  assumes "n \<noteq> []" "list_all is_digit n"
  shows "replace_all match_digits ''<N>'' (''Failed job <UUID> after '' @ n @ '' retries'')
         = ''Failed job <UUID> after <N> retries''"
proof -
  have tail: "replace_all match_digits ''<N>'' '' retries'' = '' retries''"
    by code_simp
  have "replace_all match_digits ''<N>'' (n @ '' retries'')
          = ''<N>'' @ replace_all match_digits ''<N>'' '' retries''"
    by (rule replace_digits_here[OF assms]) (simp add: is_digit_def)
  then have mid: "replace_all match_digits ''<N>'' (n @ '' retries'') = ''<N>'' @ '' retries''"
    by (simp only: tail)
  have pre: "replace_all match_digits ''<N>'' (''Failed job <UUID> after '' @ t) =
             ''Failed job <UUID> after '' @ replace_all match_digits ''<N>'' t" for t
    by (simp add: match_digits_def is_digit_def)
  show ?thesis unfolding pre mid by simp
qed

lemma later_passes:
  "take 200 (replace_all match_quoted (CHR 0x22 # ''<STRING>'' @ [CHR 0x22])
      (replace_all match_url ''<URL>'' ''Failed job <UUID> after <N> retries''))
   = ''Failed job <UUID> after <N> retries''"
  by code_simp

lemma normalize_failed_job:
  assumes "is_uuid u" "n \<noteq> []" "list_all is_digit n"
  shows "extractErrorPattern (''Failed job '' @ u @ '' after '' @ n @ '' retries'')
         = ''Failed job <UUID> after <N> retries''"
  unfolding extractErrorPattern_def uuid_pass[OF assms(1,3)] digit_pass[OF assms(2,3)]
  by (rule later_passes)


subsection \<open>Reporting an error\<close>

lemma track_pattern_new:
  assumes "map_of (errorPatterns h) (extractErrorPattern (i_error body)) = None"
  shows "track_pattern h body now =
     (h\<lparr>errorPatterns := AList.update (extractErrorPattern (i_error body))
           \<lparr>p_pattern = extractErrorPattern (i_error body), p_count = 1, p_lastSeen = now,
            p_resolution = None, p_autoResolved = 0\<rparr> (errorPatterns h)\<rparr>, body)"
  using assms by (simp add: track_pattern_def Let_def)

lemma track_pattern_known:
  assumes "map_of (errorPatterns h) (extractErrorPattern (i_error body)) = Some p"
  shows "track_pattern h body now =
     (h\<lparr>errorPatterns := AList.update (extractErrorPattern (i_error body))
           (p\<lparr>p_count := Suc (p_count p), p_lastSeen := now\<rparr>) (errorPatterns h)\<rparr>,
      body\<lparr>i_metadata := Some
        (case i_metadata body of
           None \<Rightarrow> \<lparr>md_repeatCount = Some (int (Suc (p_count p))), md_agentId = None,
                     md_other = []\<rparr>
         | Some md0 \<Rightarrow> md0\<lparr>md_repeatCount := Some (int (Suc (p_count p)))\<rparr>)\<rparr>)"
  using assms by (simp add: track_pattern_def Let_def split: option.splits)

lemma track_pattern_facts:
  fixes h body now
  defines "key \<equiv> extractErrorPattern (i_error body)"
  defines "h2 \<equiv> fst (track_pattern h body now)"
  shows "metrics h2 = metrics h" "escalations h2 = escalations h"
    and "\<exists>p. map_of (errorPatterns h2) key = Some p \<and> p_count p = Suc (pattern_count h key)"
    and "\<And>k. k \<noteq> key \<Longrightarrow> map_of (errorPatterns h2) k = map_of (errorPatterns h) k"
    and "map fst (errorPatterns h2) =
           (if key \<in> set (map fst (errorPatterns h)) then map fst (errorPatterns h)
            else map fst (errorPatterns h) @ [key])"
    and "i_error (snd (track_pattern h body now)) = i_error body"
    and "i_type (snd (track_pattern h body now)) = i_type body"
proof -
  consider (new) "map_of (errorPatterns h) key = None"
    | (known) p where "map_of (errorPatterns h) key = Some p"
    by (cases "map_of (errorPatterns h) key") auto
  then have "metrics h2 = metrics h \<and> escalations h2 = escalations h
    \<and> (\<exists>p. map_of (errorPatterns h2) key = Some p \<and> p_count p = Suc (pattern_count h key))
    \<and> (\<forall>k. k \<noteq> key \<longrightarrow> map_of (errorPatterns h2) k = map_of (errorPatterns h) k)
    \<and> map fst (errorPatterns h2) =
           (if key \<in> set (map fst (errorPatterns h)) then map fst (errorPatterns h)
            else map fst (errorPatterns h) @ [key])
    \<and> i_error (snd (track_pattern h body now)) = i_error body
    \<and> i_type (snd (track_pattern h body now)) = i_type body"
  proof cases
    case new
    then show ?thesis
      unfolding h2_def track_pattern_new[OF new[unfolded key_def]] key_def[symmetric]
      by (simp add: update_conv' update_keys pattern_count_def)
  next
    case known
    then show ?thesis
      unfolding h2_def track_pattern_known[OF known[unfolded key_def]] key_def[symmetric]
      by (simp add: update_conv' update_keys pattern_count_def)
  qed
  then show "metrics h2 = metrics h" "escalations h2 = escalations h"
    "\<exists>p. map_of (errorPatterns h2) key = Some p \<and> p_count p = Suc (pattern_count h key)"
    "\<And>k. k \<noteq> key \<Longrightarrow> map_of (errorPatterns h2) k = map_of (errorPatterns h) k"
    "map fst (errorPatterns h2) =
           (if key \<in> set (map fst (errorPatterns h)) then map fst (errorPatterns h)
            else map fst (errorPatterns h) @ [key])"
    "i_error (snd (track_pattern h body now)) = i_error body"
    "i_type (snd (track_pattern h body now)) = i_type body"
    by blast+
qed


lemma report_success:
  fixes ev h body0 escId now
  defines "h1 \<equiv> h\<lparr>metrics := (metrics h)\<lparr>m_totalErrors := Suc (m_totalErrors (metrics h))\<rparr>\<rparr>"
  defines "key \<equiv> extractErrorPattern (i_error body0)"
  defines "h2 \<equiv> fst (track_pattern h1 body0 now)"
  defines "body \<equiv> snd (track_pattern h1 body0 now)"
  defines "result \<equiv> fst (attemptAutoResolution ev body now)"
  defines "sent \<equiv> snd (attemptAutoResolution ev body now)"
  assumes ok: "r_success result"
  shows "\<exists>pattern. map_of (errorPatterns h2) key = Some pattern
     \<and> handleReportError ev h body0 escId now =
         (h2\<lparr>metrics := (metrics h2)\<lparr>m_autoResolved := Suc (m_autoResolved (metrics h2))\<rparr>,
             errorPatterns := AList.update key
               (pattern\<lparr>p_autoResolved := Suc (p_autoResolved pattern),
                        p_resolution := Some (r_action result)\<rparr>) (errorPatterns h2)\<rparr>,
          sent,
          \<lparr>rr_success = True, rr_autoResolved = True, rr_action = r_action result,
           rr_message = r_message result\<rparr>)"
proof -
  from track_pattern_facts(3)[of h1 body0 now] obtain pattern
    where p: "map_of (errorPatterns h2) key = Some pattern"
    unfolding h2_def key_def by blast
  show ?thesis
    using p ok
    unfolding handleReportError_def Let_def h1_def[symmetric] key_def[symmetric]
    by (simp add: split_beta h2_def[symmetric] body_def[symmetric] result_def[symmetric]
          sent_def[symmetric])
qed

lemma report_failure:
  fixes ev h body0 escId now
  defines "h1 \<equiv> h\<lparr>metrics := (metrics h)\<lparr>m_totalErrors := Suc (m_totalErrors (metrics h))\<rparr>\<rparr>"
  defines "h2 \<equiv> fst (track_pattern h1 body0 now)"
  defines "body \<equiv> snd (track_pattern h1 body0 now)"
  defines "result \<equiv> fst (attemptAutoResolution ev body now)"
  defines "sent \<equiv> snd (attemptAutoResolution ev body now)"
  defines "esc \<equiv> \<lparr>e_id = escId, e_issue = i_error body, e_severity = determineSeverity body,
                    e_attempts = 1, e_createdAt = now, e_resolvedAt = None\<rparr>"
  assumes no: "\<not> r_success result"
  shows "handleReportError ev h body0 escId now =
         (fst (escalate ev h2 esc), sent @ snd (escalate ev h2 esc),
          \<lparr>rr_success = True, rr_autoResolved = False, rr_action = r_action result,
           rr_message = r_message result\<rparr>)"
  using no
  unfolding handleReportError_def Let_def h1_def[symmetric]
  by (simp add: split_beta h2_def[symmetric] body_def[symmetric] result_def[symmetric]
        sent_def[symmetric] esc_def)

lemma escalate_patterns: "errorPatterns (fst (escalate ev h esc)) = errorPatterns h"
  by (simp add: escalate_def Let_def)

lemma report_patterns:
  fixes ev h body escId now
  defines "key \<equiv> extractErrorPattern (i_error body)"
  defines "h' \<equiv> fst (handleReportError ev h body escId now)"
  shows "pattern_count h' key = Suc (pattern_count h key)"
    and "\<And>k. k \<noteq> key \<Longrightarrow> pattern_count h' k = pattern_count h k"
    and "map fst (errorPatterns h') =
           (if key \<in> set (map fst (errorPatterns h)) then map fst (errorPatterns h)
            else map fst (errorPatterns h) @ [key])"
proof -
  let ?h1 = "h\<lparr>metrics := (metrics h)\<lparr>m_totalErrors := Suc (m_totalErrors (metrics h))\<rparr>\<rparr>"
  let ?h2 = "fst (track_pattern ?h1 body now)"
  let ?body = "snd (track_pattern ?h1 body now)"
  let ?result = "fst (attemptAutoResolution ev ?body now)"
  note f = track_pattern_facts[where h = ?h1 and body = body and now = now, folded key_def]
  from f(3) obtain p where p: "map_of (errorPatterns ?h2) key = Some p"
    "p_count p = Suc (pattern_count h key)"
    by (auto simp: pattern_count_def)
  have others: "map_of (errorPatterns ?h2) k = map_of (errorPatterns h) k" if "k \<noteq> key" for k
    using f(4)[OF that] by simp
  have keys2: "map fst (errorPatterns ?h2) =
           (if key \<in> set (map fst (errorPatterns h)) then map fst (errorPatterns h)
            else map fst (errorPatterns h) @ [key])"
    using f(5) by simp
  have in2: "key \<in> set (map fst (errorPatterns ?h2))"
    using p(1) by (metis map_of_eq_None_iff option.distinct(1) set_map)
  have "pattern_count h' key = Suc (pattern_count h key)
    \<and> (\<forall>k. k \<noteq> key \<longrightarrow> pattern_count h' k = pattern_count h k)
    \<and> map fst (errorPatterns h') = map fst (errorPatterns ?h2)"
  proof (cases "r_success ?result")
    case True
    from report_success[OF True, where escId = escId, folded key_def] p(1)
    have "errorPatterns h' = AList.update key
               (p\<lparr>p_autoResolved := Suc (p_autoResolved p),
                  p_resolution := Some (r_action ?result)\<rparr>) (errorPatterns ?h2)"
      unfolding h'_def by auto
    then show ?thesis using p others in2
      by (simp add: pattern_count_def update_conv' update_keys)
  next
    case False
    from report_failure[OF False, where escId = escId]
    have "errorPatterns h' = errorPatterns ?h2"
      unfolding h'_def by (simp add: escalate_patterns)
    then show ?thesis using p others by (simp add: pattern_count_def)
  qed
  then show "pattern_count h' key = Suc (pattern_count h key)"
    "\<And>k. k \<noteq> key \<Longrightarrow> pattern_count h' k = pattern_count h k"
    "map fst (errorPatterns h') =
           (if key \<in> set (map fst (errorPatterns h)) then map fst (errorPatterns h)
            else map fst (errorPatterns h) @ [key])"
    using keys2 by simp_all
qed



lemma report_key_present:
  "extractErrorPattern (i_error body)
     \<in> set (map fst (errorPatterns (fst (handleReportError ev h body escId now))))"
  unfolding report_patterns(3) by simp

subsection \<open>Resolution\<close>





subsection \<open>Claims about the healer\<close>

text \<open>
  C6. \<open>extractErrorPattern\<close> maps
  \<open>Failed job 123e4567-e89b-12d3-a456-426614174000 after 42 retries\<close> to
  \<open>Failed job <UUID> after <N> retries\<close>, and maps to the same key every error made of the
  same words around a UUID-shaped string and a non-empty run of digits. Every report adds
  one to the count of the pattern of its key (a key that is new gets count 1, counted from
  0), leaves every other count as it is, and adds an entry only for a key that is new. So
  the second of two reports with the same key adds no entry and adds one to the count.
\<close>

theorem error_pattern_normalization:
  "extractErrorPattern ''Failed job 123e4567-e89b-12d3-a456-426614174000 after 42 retries''
     = ''Failed job <UUID> after <N> retries''
   \<and> (is_uuid u \<and> n \<noteq> [] \<and> list_all is_digit n \<longrightarrow>
        extractErrorPattern (''Failed job '' @ u @ '' after '' @ n @ '' retries'')
          = ''Failed job <UUID> after <N> retries'')
   \<and> (let key = extractErrorPattern (i_error body);
            h' = fst (handleReportError ev h body escId now)
        in pattern_count h' key = Suc (pattern_count h key)
           \<and> (\<forall>k. k \<noteq> key \<longrightarrow> pattern_count h' k = pattern_count h k)
           \<and> map fst (errorPatterns h') =
                (if key \<in> set (map fst (errorPatterns h)) then map fst (errorPatterns h)
                 else map fst (errorPatterns h) @ [key]))
   \<and> (extractErrorPattern (i_error bb) = extractErrorPattern (i_error ba) \<longrightarrow>
        (let key = extractErrorPattern (i_error ba);
             ha = fst (handleReportError eva hz ba ida ta);
             hb = fst (handleReportError evb ha bb idb tb)
         in map fst (errorPatterns hb) = map fst (errorPatterns ha)
            \<and> pattern_count hb key = Suc (pattern_count ha key)))"
proof (intro conjI impI)
  show "extractErrorPattern ''Failed job 123e4567-e89b-12d3-a456-426614174000 after 42 retries''
     = ''Failed job <UUID> after <N> retries''"
    by code_simp
next
  assume "is_uuid u \<and> n \<noteq> [] \<and> list_all is_digit n"
  then show "extractErrorPattern (''Failed job '' @ u @ '' after '' @ n @ '' retries'')
          = ''Failed job <UUID> after <N> retries''"
    by (intro normalize_failed_job) simp_all
next
  show "let key = extractErrorPattern (i_error body);
            h' = fst (handleReportError ev h body escId now)
        in pattern_count h' key = Suc (pattern_count h key)
           \<and> (\<forall>k. k \<noteq> key \<longrightarrow> pattern_count h' k = pattern_count h k)
           \<and> map fst (errorPatterns h') =
                (if key \<in> set (map fst (errorPatterns h)) then map fst (errorPatterns h)
                 else map fst (errorPatterns h) @ [key])"
    unfolding Let_def
    using report_patterns[where ev = ev and h = h and body = body and escId = escId and now = now]
    by blast
next
  assume same: "extractErrorPattern (i_error bb) = extractErrorPattern (i_error ba)"
  let ?ha = "fst (handleReportError eva hz ba ida ta)"
  have "extractErrorPattern (i_error bb) \<in> set (map fst (errorPatterns ?ha))"
    unfolding same by (rule report_key_present)
  then have "map fst (errorPatterns (fst (handleReportError evb ?ha bb idb tb)))
             = map fst (errorPatterns ?ha)"
    unfolding report_patterns(3) by simp
  moreover have "pattern_count (fst (handleReportError evb ?ha bb idb tb))
                   (extractErrorPattern (i_error bb))
                 = Suc (pattern_count ?ha (extractErrorPattern (i_error bb)))"
    by (rule report_patterns(1))
  ultimately show "let key = extractErrorPattern (i_error ba);
             ha = fst (handleReportError eva hz ba ida ta);
             hb = fst (handleReportError evb ha bb idb tb)
         in map fst (errorPatterns hb) = map fst (errorPatterns ha)
            \<and> pattern_count hb key = Suc (pattern_count ha key)"
    unfolding Let_def same by simp
qed

theorem error_pattern_normalization_witness:
  "(is_uuid ''00000000-AAAA-bbbb-cccc-0123456789ab'' \<and> ''7'' \<noteq> [] \<and> list_all is_digit ''7'')
   \<and> extractErrorPattern
         (''Failed job '' @ ''00000000-AAAA-bbbb-cccc-0123456789ab'' @ '' after '' @ ''7''
          @ '' retries'')
        = ''Failed job <UUID> after <N> retries''
   \<and> extractErrorPattern (i_error sc_failed_job_b) = extractErrorPattern (i_error sc_failed_job_a)
   \<and> (let key = extractErrorPattern (i_error sc_failed_job_a);
             ha = fst (handleReportError sc_env empty_healer sc_failed_job_a ''esc-1'' 1000);
             hb = fst (handleReportError sc_env ha sc_failed_job_b ''esc-2'' 2000)
         in map fst (errorPatterns hb) = map fst (errorPatterns ha)
            \<and> pattern_count hb key = Suc (pattern_count ha key))"
proof -
  have u: "is_uuid ''00000000-AAAA-bbbb-cccc-0123456789ab'' \<and> ''7'' \<noteq> []
           \<and> list_all is_digit ''7''"
    by code_simp
  have s: "extractErrorPattern (i_error sc_failed_job_b)
           = extractErrorPattern (i_error sc_failed_job_a)"
    by code_simp
  note t = error_pattern_normalization[where u = "''00000000-AAAA-bbbb-cccc-0123456789ab''"
      and n = "''7''" and ba = sc_failed_job_a and bb = sc_failed_job_b and eva = sc_env
      and evb = sc_env and hz = empty_healer and ida = "''esc-1''" and idb = "''esc-2''"
      and ta = 1000 and tb = 2000]
  show ?thesis
    by (intro conjI u[THEN conjunct1] u[THEN conjunct2, THEN conjunct1]
          u[THEN conjunct2, THEN conjunct2] s
          t[THEN conjunct2, THEN conjunct1, THEN mp, OF u]
          t[THEN conjunct2, THEN conjunct2, THEN conjunct2, THEN mp, OF s])
qed






end
